theory Spec2Isabelle
  imports Complex_Main "HOL-Library.AList"
begin

section \<open>Python values, numpy helpers and exceptions\<close>

text \<open>
  The model follows \<^verbatim>\<open>src/pycdft/common/wfc.py\<close>. Every exception the module can raise
  is a constructor of \<open>error\<close>, one per raise site where the site matters:
  \<^item> \<open>KPointsNotSupported\<close>: the \<^verbatim>\<open>AssertionError("K points are not supported yet")\<close> of
    line 98;
  \<^item> \<open>NbndShapeAssertion\<close>: the \<^verbatim>\<open>AssertionError\<close> of line 106;
  \<^item> \<open>ShapeMismatch\<close>: the \<^verbatim>\<open>AssertionError\<close> of line 150 (\<open>normalize\<close>);
  \<^item> \<open>KeyAssertion\<close>: the \<^verbatim>\<open>AssertionError\<close> of lines 29 to 31, always caught at line 34;
  \<^item> \<open>InvalidKeyType\<close>: the \<^verbatim>\<open>ValueError\<close> raised at line 33;
  \<^item> \<open>IndexOutOfRange\<close>: the \<^verbatim>\<open>IndexError\<close> raised at line 35, with the three values its
    message formats (\<open>nspin\<close>, \<open>nkpt\<close>, the array \<open>nbnd\<close>);
  \<^item> \<open>PyKeyError\<close>, \<open>PyTypeError\<close>, \<open>PyValueError\<close>, \<open>PyIndexError\<close>: exceptions raised by
    Python builtins and numpy (dict lookup, \<^verbatim>\<open>int()\<close>, subscripting, array creation).
\<close>

datatype error =
    KPointsNotSupported
  | NbndShapeAssertion
  | ShapeMismatch
  | KeyAssertion
  | InvalidKeyType
  | IndexOutOfRange int int "int list list"
  | PyKeyError
  | PyTypeError
  | PyValueError
  | PyIndexError

text \<open>
  Keys handed to a store. A \<^verbatim>\<open>str\<close> is represented by what the builtin \<^verbatim>\<open>int()\<close> makes of
  it (\<open>Some n\<close> when it parses as the integer \<open>n\<close>, \<open>None\<close> when \<^verbatim>\<open>int()\<close> raises
  \<^verbatim>\<open>ValueError\<close>), since \<^verbatim>\<open>int()\<close> is the only operation \<open>_get_idx\<close> ever applies to a
  string.
\<close>

datatype pyval = PInt int | PStr "int option" | PNone | PTuple "pyval list"

text \<open>A numpy scalar carries its dtype: integer or floating.\<close>

datatype npnum = NpInt int | NpFloat real

text \<open>The builtin \<^verbatim>\<open>int(x)\<close>.\<close>

fun py_int :: "pyval \<Rightarrow> error + int" where
  "py_int (PInt n) = Inr n"
| "py_int (PStr (Some n)) = Inr n"
| "py_int (PStr None) = Inl PyValueError"
| "py_int PNone = Inl PyTypeError"
| "py_int (PTuple xs) = Inl PyTypeError"

text \<open>\<^verbatim>\<open>key[i]\<close> on a tuple, for a literal index \<open>i \<ge> 0\<close>.\<close>

definition tuple_item :: "pyval list \<Rightarrow> nat \<Rightarrow> error + pyval" where
  "tuple_item xs i = (if i < length xs then Inr (xs ! i) else Inl PyIndexError)"

text \<open>\<^verbatim>\<open>range(n)\<close>: empty when \<open>n \<le> 0\<close>.\<close>

definition py_range :: "int \<Rightarrow> int list" where
  "py_range n = map int [0..<nat n]"

text \<open>\<^verbatim>\<open>xs[0:n]\<close>: a negative stop counts from the end, and slices never raise.\<close>

definition py_slice0 :: "'a list \<Rightarrow> int \<Rightarrow> 'a list" where
  "py_slice0 xs n = (if 0 \<le> n then take (nat n) xs else take (nat (int (length xs) + n)) xs)"

text \<open>
  Integer indexing of one numpy axis: indices in \<open>[-len, 0)\<close> wrap around, anything else
  outside \<open>[0, len)\<close> raises \<^verbatim>\<open>IndexError\<close>. \<open>np_index2 a i j\<close> is \<^verbatim>\<open>a[i, j]\<close>.
\<close>

definition np_index :: "'a list \<Rightarrow> int \<Rightarrow> error + 'a" where
  "np_index xs i =
     (let len = int (length xs) in
      if 0 \<le> i \<and> i < len then Inr (xs ! nat i)
      else if - len \<le> i \<and> i < 0 then Inr (xs ! nat (i + len))
      else Inl PyIndexError)"

definition np_index2 :: "'a list list \<Rightarrow> int \<Rightarrow> int \<Rightarrow> error + 'a" where
  "np_index2 a i j = (case np_index a i of Inl e \<Rightarrow> Inl e | Inr row \<Rightarrow> np_index row j)"

text \<open>Sequencing of statements that may raise: the first exception ends the loop.\<close>

fun fold_err :: "('a \<Rightarrow> 's \<Rightarrow> error + 's) \<Rightarrow> 'a list \<Rightarrow> 's \<Rightarrow> error + 's" where
  "fold_err f [] s = Inr s"
| "fold_err f (x # xs) s = (case f x s of Inl e \<Rightarrow> Inl e | Inr s' \<Rightarrow> fold_err f xs s')"

section \<open>The collaborators: sample and grid\<close>

text \<open>
  Modelled from the spec: the classes \<open>Sample\<close> and \<open>FFTGrid\<close> of
  \<^verbatim>\<open>pycdft.common.sample\<close>, which this module imports and which is not among the sources
  at hand. The specification describes them as a collaborator that "exposes a scalar volume
  (omega)" and one that "exposes point-count totals and per-axis extents (n1, n2, n3)"; only
  these attributes, the ones \<open>normalize\<close> reads, are kept.
\<close>

record sample =
  omega :: real

record fftgrid =
  grid_n1 :: int
  grid_n2 :: int
  grid_n3 :: int
  grid_N :: int

section \<open>Wavefunction\<close>

type_synonym skb = "int \<times> int \<times> int"

record wavefunction =
  sample :: sample
  wgrid :: fftgrid
  dgrid :: fftgrid
  nspin :: int
  nkpt :: int
  nbnd :: "int list list"
  occ :: "npnum list list list"
  gamma :: bool
  idx_skb_map :: "(int \<times> skb) list"
  norb :: int
  skb_idx_map :: "(skb \<times> int) list"

text \<open>
  The \<open>nbnd\<close> argument of the constructor: a value \<^verbatim>\<open>int()\<close> accepts, or a nested sequence
  (rows are spins, columns k points) on which \<^verbatim>\<open>int()\<close> raises \<^verbatim>\<open>TypeError\<close>.
\<close>

datatype nbnd_arg = NbndInt int | NbndArray "int list list"

text \<open>
  The \<open>occ\<close> argument is a numpy array; the constructor branches on \<open>occ.ndim == 1\<close>. The
  other branch is modelled for three-dimensional input, the per-channel form the comment at
  line 111 describes.
\<close>

datatype occ_arg = Occ1D "npnum list" | Occ3D "npnum list list list"

subsection \<open>Lines 99 to 106: the band counts\<close>

definition rectangular :: "'a list list \<Rightarrow> bool" where
  "rectangular rows = (\<forall>r \<in> set rows. length r = length (hd rows))"

text \<open>The shape of \<^verbatim>\<open>np.array(rows)\<close> for a rectangular nested list of numbers.\<close>

definition np_shape2 :: "'a list list \<Rightarrow> int list" where
  "np_shape2 rows = (if rows = [] then [0] else [int (length rows), int (length (hd rows))])"

definition make_nbnd :: "int \<Rightarrow> int \<Rightarrow> nbnd_arg \<Rightarrow> error + int list list" where
  "make_nbnd ns nk a =
     (case a of
        NbndInt n \<Rightarrow>
          \<comment> \<open>\<^verbatim>\<open>np.ones((nspin, nkpt), dtype=int) * nbnd_\<close>; a negative dimension raises\<close>
          if ns < 0 \<or> nk < 0 then Inl PyValueError
          else Inr (replicate (nat ns) (replicate (nat nk) n))
      | NbndArray rows \<Rightarrow>
          \<comment> \<open>\<^verbatim>\<open>np.array(nbnd, dtype=np.int_)\<close> raises on a ragged list; then the assertion\<close>
          if \<not> rectangular rows then Inl PyValueError
          else if np_shape2 rows = [ns, nk] then Inr rows
          else Inl NbndShapeAssertion)"

subsection \<open>Lines 107 to 116: the occupation numbers\<close>

text \<open>Storing a number into an array of integer dtype truncates it toward zero.\<close>

definition np_cast_int :: "npnum \<Rightarrow> npnum" where
  "np_cast_int x =
     (case x of NpInt n \<Rightarrow> NpInt n
      | NpFloat r \<Rightarrow> NpInt (if 0 \<le> r then \<lfloor>r\<rfloor> else \<lceil>r\<rceil>))"

text \<open>\<^verbatim>\<open>np.max\<close> of a two-dimensional array; it raises on an empty array.\<close>

definition np_max :: "int list list \<Rightarrow> error + int" where
  "np_max a = (case concat a of [] \<Rightarrow> Inl PyValueError | x # xs \<Rightarrow> Inr (fold max xs x))"

text \<open>
  \<^verbatim>\<open>row[0:n] = rhs\<close> on a row of integer dtype: the right-hand side must have the length of
  the target slice or length one (numpy then broadcasts it); otherwise numpy raises
  \<^verbatim>\<open>ValueError\<close>.
\<close>

definition assign_slice0 :: "npnum list \<Rightarrow> int \<Rightarrow> npnum list \<Rightarrow> error + npnum list" where
  "assign_slice0 row n rhs =
     (let t = length (py_slice0 row n) in
      if length rhs = t then Inr (map np_cast_int rhs @ drop t row)
      else if length rhs = 1 then Inr (concat (replicate t (map np_cast_int rhs)) @ drop t row)
      else Inl PyValueError)"

text \<open>The body of the loops of lines 113 to 116.\<close>

definition occ_step ::
  "int list list \<Rightarrow> npnum list list list \<Rightarrow> int \<Rightarrow> int \<Rightarrow> npnum list list list
     \<Rightarrow> error + npnum list list list" where
  "occ_step nb occ_in ispin ikpt oc =
     (case np_index2 nb ispin ikpt of Inl e \<Rightarrow> Inl e | Inr n \<Rightarrow>
     (case np_index2 occ_in ispin ikpt of Inl e \<Rightarrow> Inl e | Inr src \<Rightarrow>
     (case np_index2 oc ispin ikpt of Inl e \<Rightarrow> Inl e | Inr row \<Rightarrow>
     (case assign_slice0 row n (py_slice0 src n) of Inl e \<Rightarrow> Inl e | Inr row' \<Rightarrow>
        Inr (oc[nat ispin := (oc ! nat ispin)[nat ikpt := row']])))))"

definition make_occ ::
  "int \<Rightarrow> int \<Rightarrow> int list list \<Rightarrow> occ_arg \<Rightarrow> error + npnum list list list" where
  "make_occ ns nk nb a =
     (case a of
        Occ1D xs \<Rightarrow>
          \<comment> \<open>\<^verbatim>\<open>np.tile(occ, (nspin, nkpt)).reshape(nspin, nkpt, -1)\<close>: the reshape cannot
              infer the last axis when \<open>nspin * nkpt = 0\<close>\<close>
          if ns * nk = 0 then Inl PyValueError
          else Inr (replicate (nat ns) (replicate (nat nk) xs))
      | Occ3D occ_in \<Rightarrow>
          (case np_max nb of Inl e \<Rightarrow> Inl e | Inr mx \<Rightarrow>
           if mx < 0 then Inl PyValueError
           else fold_err
                  (\<lambda>ispin. fold_err (\<lambda>ikpt. occ_step nb occ_in ispin ikpt) (py_range nk))
                  (py_range ns)
                  (replicate (nat ns) (replicate (nat nk) (replicate (nat mx) (NpInt 0))))))"

subsection \<open>Lines 120 to 131: the index maps\<close>

text \<open>
  A Python \<open>dict\<close> is an association list: \<open>AList.update\<close> overwrites an existing key in
  place and appends a new one, \<open>map_of\<close> looks a key up, \<open>length\<close> is \<^verbatim>\<open>len\<close>.
\<close>

definition band_step :: "int \<Rightarrow> int \<Rightarrow> int \<Rightarrow> (int \<times> skb) list \<times> int \<Rightarrow> (int \<times> skb) list \<times> int" where
  "band_step ispin ikpt ibnd st =
     (case st of (m, idx) \<Rightarrow> (AList.update idx (ispin, ikpt, ibnd) m, idx + 1))"

definition channel_step ::
  "int list list \<Rightarrow> int \<times> int \<Rightarrow> (int \<times> skb) list \<times> int \<Rightarrow> error + (int \<times> skb) list \<times> int" where
  "channel_step nb ch st =
     (case ch of (ispin, ikpt) \<Rightarrow>
        (case np_index2 nb ispin ikpt of Inl e \<Rightarrow> Inl e
         | Inr n \<Rightarrow> Inr (fold (band_step ispin ikpt) (py_range n) st)))"

text \<open>\<^verbatim>\<open>np.ndindex(a, b)\<close>: all index pairs, the last axis running fastest.\<close>

definition ndindex :: "int \<Rightarrow> int \<Rightarrow> (int \<times> int) list" where
  "ndindex a b = List.product (py_range a) (py_range b)"

definition build_idx_skb_map ::
  "int \<Rightarrow> int \<Rightarrow> int list list \<Rightarrow> error + (int \<times> skb) list \<times> int" where
  "build_idx_skb_map ns nk nb = fold_err (channel_step nb) (ndindex ns nk) ([], 0)"

text \<open>The dict comprehension of lines 128 to 131.\<close>

definition build_skb_idx_map :: "(int \<times> skb) list \<Rightarrow> int \<Rightarrow> error + (skb \<times> int) list" where
  "build_skb_idx_map m no =
     fold_err
       (\<lambda>idx acc. case map_of m idx of None \<Rightarrow> Inl PyKeyError
                   | Some t \<Rightarrow> Inr (AList.update t idx acc))
       (py_range no) []"

subsection \<open>The constructor\<close>

definition Wavefunction_init ::
  "sample \<Rightarrow> fftgrid \<Rightarrow> fftgrid \<Rightarrow> int \<Rightarrow> int \<Rightarrow> nbnd_arg \<Rightarrow> occ_arg \<Rightarrow> bool
     \<Rightarrow> error + wavefunction" where
  "Wavefunction_init smp wg dg ns nk nb_arg occ_in gam =
     (if nk \<noteq> 1 then Inl KPointsNotSupported
      else
       (case make_nbnd ns nk nb_arg of Inl e \<Rightarrow> Inl e | Inr nb \<Rightarrow>
       (case make_occ ns nk nb occ_in of Inl e \<Rightarrow> Inl e | Inr oc \<Rightarrow>
       (case build_idx_skb_map ns nk nb of Inl e \<Rightarrow> Inl e | Inr (m, idx) \<Rightarrow>
       (case build_skb_idx_map m (int (length m)) of Inl e \<Rightarrow> Inl e | Inr sm \<Rightarrow>
          Inr \<lparr> sample = smp, wgrid = wg, dgrid = dg, nspin = ns, nkpt = nk, nbnd = nb,
                occ = oc, gamma = gam, idx_skb_map = m, norb = int (length m),
                skb_idx_map = sm \<rparr>)))))"

subsection \<open>Lines 137 to 152: the methods\<close>

text \<open>\<open>skb2idx\<close> turns the \<^verbatim>\<open>KeyError\<close> of the dict into the value \<^verbatim>\<open>None\<close>.\<close>

definition skb2idx :: "wavefunction \<Rightarrow> int \<Rightarrow> int \<Rightarrow> int \<Rightarrow> int option" where
  "skb2idx w ispin ikpt ibnd = map_of (skb_idx_map w) (ispin, ikpt, ibnd)"

definition idx2skb :: "wavefunction \<Rightarrow> int \<Rightarrow> error + skb" where
  "idx2skb w idx = (case map_of (idx_skb_map w) idx of None \<Rightarrow> Inl PyKeyError | Some t \<Rightarrow> Inr t)"

text \<open>
  A field is a numpy array: its shape and its entries in row-major order. Arithmetic on the
  entries is exact (real and complex numbers), not IEEE floating point.
\<close>

record ndarray =
  arr_shape :: "int list"
  arr_data :: "complex list"

definition normalize :: "wavefunction \<Rightarrow> ndarray \<Rightarrow> error + ndarray" where
  "normalize w psir =
     (if arr_shape psir \<noteq> [grid_n1 (wgrid w), grid_n2 (wgrid w), grid_n3 (wgrid w)]
      then Inl ShapeMismatch
      else
        let nrm = sqrt ((\<Sum>z\<leftarrow>arr_data psir. (cmod z)\<^sup>2) * omega (sample w)
                        / of_int (grid_N (wgrid w)))
        in Inr (psir\<lparr>arr_data := map (\<lambda>z. z / of_real nrm) (arr_data psir)\<rparr>))"

section \<open>WfcManager\<close>

text \<open>
  The manager keeps a reference to its wavefunction, which is not modified after
  construction, a dict \<open>qty\<close> whose keys are the values \<open>_get_idx\<close> returns (an integer or
  \<^verbatim>\<open>None\<close>), and the transform applied on insertion.
\<close>

record 'v wfc_manager =
  wfc :: wavefunction
  qty :: "(int option \<times> 'v) list"
  transform :: "'v \<Rightarrow> error + 'v"

definition WfcManager_init :: "wavefunction \<Rightarrow> ('v \<Rightarrow> error + 'v) \<Rightarrow> 'v wfc_manager" where
  "WfcManager_init w tr = \<lparr> wfc = w, qty = [], transform = tr \<rparr>"

text \<open>Lines 134 and 135: the two stores of a wavefunction, as they are after construction.\<close>

definition psi_g :: "wavefunction \<Rightarrow> ndarray wfc_manager" where
  "psi_g w = WfcManager_init w Inr"

definition psi_r :: "wavefunction \<Rightarrow> ndarray wfc_manager" where
  "psi_r w = WfcManager_init w (normalize w)"

definition indices :: "'v wfc_manager \<Rightarrow> int option list" where
  "indices mgr = map fst (qty mgr)"

definition clear :: "'v wfc_manager \<Rightarrow> 'v wfc_manager" where
  "clear mgr = mgr\<lparr>qty := []\<rparr>"

text \<open>The body of the inner \<^verbatim>\<open>try\<close> of \<open>_get_idx\<close>, lines 26 to 31.\<close>

definition triple_try :: "wavefunction \<Rightarrow> pyval list \<Rightarrow> error + skb" where
  "triple_try w xs =
     (case tuple_item xs 0 of Inl e \<Rightarrow> Inl e | Inr k0 \<Rightarrow>
     (case py_int k0 of Inl e \<Rightarrow> Inl e | Inr ispin \<Rightarrow>
     (case tuple_item xs 1 of Inl e \<Rightarrow> Inl e | Inr k1 \<Rightarrow>
     (case py_int k1 of Inl e \<Rightarrow> Inl e | Inr ikpt \<Rightarrow>
     (case tuple_item xs 2 of Inl e \<Rightarrow> Inl e | Inr k2 \<Rightarrow>
     (case py_int k2 of Inl e \<Rightarrow> Inl e | Inr ibnd \<Rightarrow>
        if \<not> (0 \<le> ispin \<and> ispin \<le> nspin w) then Inl KeyAssertion
        else if \<not> (0 \<le> ikpt \<and> ikpt \<le> nkpt w) then Inl KeyAssertion
        else (case np_index2 (nbnd w) ispin ikpt of Inl e \<Rightarrow> Inl e | Inr n \<Rightarrow>
                if \<not> (0 \<le> ibnd \<and> ibnd \<le> n) then Inl KeyAssertion
                else Inr (ispin, ikpt, ibnd))))))))"

text \<open>The handlers of lines 32 to 37, then line 38.\<close>

definition triple_idx :: "wavefunction \<Rightarrow> pyval list \<Rightarrow> error + int option" where
  "triple_idx w xs =
     (case triple_try w xs of
        Inl PyValueError \<Rightarrow> Inl InvalidKeyType
      | Inl KeyAssertion \<Rightarrow> Inl (IndexOutOfRange (nspin w) (nkpt w) (nbnd w))
      | Inl PyIndexError \<Rightarrow> Inl (IndexOutOfRange (nspin w) (nkpt w) (nbnd w))
      | Inl e \<Rightarrow> Inl e
      | Inr (ispin, ikpt, ibnd) \<Rightarrow> Inr (skb2idx w ispin ikpt ibnd))"

text \<open>
  \<open>_get_idx\<close>: only a \<^verbatim>\<open>TypeError\<close> of \<^verbatim>\<open>int(key)\<close> enters the handler of line 24. Of the
  keys modelled, \<^verbatim>\<open>int()\<close> raises it on a tuple and on \<^verbatim>\<open>None\<close>; subscripting \<^verbatim>\<open>None\<close>
  raises a \<^verbatim>\<open>TypeError\<close> that no handler catches.
\<close>

definition get_idx :: "'v wfc_manager \<Rightarrow> pyval \<Rightarrow> error + int option" where
  "get_idx mgr key =
     (case py_int key of
        Inr idx \<Rightarrow> Inr (Some idx)
      | Inl PyTypeError \<Rightarrow>
          (case key of PTuple xs \<Rightarrow> triple_idx (wfc mgr) xs | _ \<Rightarrow> Inl PyTypeError)
      | Inl e \<Rightarrow> Inl e)"

definition getitem :: "'v wfc_manager \<Rightarrow> pyval \<Rightarrow> error + 'v" where
  "getitem mgr key =
     (case get_idx mgr key of Inl e \<Rightarrow> Inl e
      | Inr idx \<Rightarrow> (case map_of (qty mgr) idx of None \<Rightarrow> Inl PyKeyError | Some v \<Rightarrow> Inr v))"

definition setitem :: "'v wfc_manager \<Rightarrow> pyval \<Rightarrow> 'v \<Rightarrow> error + 'v wfc_manager" where
  "setitem mgr key val =
     (case get_idx mgr key of Inl e \<Rightarrow> Inl e
      | Inr idx \<Rightarrow>
          (case transform mgr val of Inl e \<Rightarrow> Inl e
           | Inr v \<Rightarrow> Inr (mgr\<lparr>qty := AList.update idx v (qty mgr)\<rparr>)))"

section \<open>Notions used in the statements and proofs\<close>

text \<open>A dict whose keys are \<open>0, 1, \<dots>\<close> in insertion order, as a list of values.\<close>

definition idx_list :: "'a list \<Rightarrow> (int \<times> 'a) list" where
  "idx_list ts = zip (map int [0..<length ts]) ts"

text \<open>The triples one channel contributes, and those of a list of channels, in loop order.\<close>

definition chan_triples :: "int list list \<Rightarrow> int \<times> int \<Rightarrow> skb list" where
  "chan_triples nb ch =
     (case ch of (s, k) \<Rightarrow>
        (case np_index2 nb s k of Inl e \<Rightarrow> [] | Inr n \<Rightarrow> map (\<lambda>b. (s, k, b)) (py_range n)))"

definition all_triples :: "int list list \<Rightarrow> (int \<times> int) list \<Rightarrow> skb list" where
  "all_triples nb chs = concat (map (chan_triples nb) chs)"

text \<open>Every channel of the list is inside the array of band counts.\<close>

definition chans_ok :: "int list list \<Rightarrow> (int \<times> int) list \<Rightarrow> bool" where
  "chans_ok nb chs = (\<forall>ch \<in> set chs. \<exists>n. np_index2 nb (fst ch) (snd ch) = Inr n)"

text \<open>The dict comprehension of line 128 swaps keys and values.\<close>

definition swap_list :: "(int \<times> 'a) list \<Rightarrow> ('a \<times> int) list" where
  "swap_list m = map (\<lambda>(i, t). (t, i)) m"

text \<open>
  The lexicographic order of (spin, kpoint, band) triples: spin first, then k point, then band;
  and the same order on channels.
\<close>

definition skb_less :: "skb \<Rightarrow> skb \<Rightarrow> bool" where
  "skb_less t u =
     (case t of (s, k, b) \<Rightarrow> case u of (s', k', b') \<Rightarrow>
        s < s' \<or> (s = s' \<and> (k < k' \<or> (k = k' \<and> b < b'))))"

definition ch_less :: "int \<times> int \<Rightarrow> int \<times> int \<Rightarrow> bool" where
  "ch_less c d = (fst c < fst d \<or> (fst c = fst d \<and> snd c < snd d))"

text \<open>\<open>shape2 a ns nk\<close>: the nested list \<open>a\<close> is an array of shape \<open>(ns, nk)\<close>.\<close>

definition shape2 :: "'a list list \<Rightarrow> int \<Rightarrow> int \<Rightarrow> bool" where
  "shape2 a ns nk = (int (length a) = ns \<and> (\<forall>row \<in> set a. int (length row) = nk))"

text \<open>
  A valid triple: \<open>0 \<le> s < nspin\<close>, \<open>0 \<le> k < nkpt\<close> and \<open>0 \<le> b < nbnd[s, k]\<close>.
\<close>

definition valid_skb :: "wavefunction \<Rightarrow> skb \<Rightarrow> bool" where
  "valid_skb w t =
     (case t of (s, k, b) \<Rightarrow>
        0 \<le> s \<and> s < nspin w \<and> 0 \<le> k \<and> k < nkpt w \<and>
        (case np_index2 (nbnd w) s k of Inl e \<Rightarrow> False | Inr n \<Rightarrow> 0 \<le> b \<and> b < n))"

text \<open>What the constructor establishes about the index maps.\<close>

definition built :: "wavefunction \<Rightarrow> bool" where
  "built w =
     (shape2 (nbnd w) (nspin w) (nkpt w) \<and>
      idx_skb_map w = idx_list (all_triples (nbnd w) (ndindex (nspin w) (nkpt w))) \<and>
      skb_idx_map w = swap_list (idx_list (all_triples (nbnd w) (ndindex (nspin w) (nkpt w)))) \<and>
      norb w = int (length (all_triples (nbnd w) (ndindex (nspin w) (nkpt w)))))"

text \<open>
  The bounds \<open>_get_idx\<close> asserts for a triple key, lines 29 to 31: each upper bound includes
  the count itself, and \<^verbatim>\<open>nbnd[ispin, ikpt]\<close> has to exist.
\<close>

definition key_bounds_ok :: "wavefunction \<Rightarrow> int \<Rightarrow> int \<Rightarrow> int \<Rightarrow> bool" where
  "key_bounds_ok w s k b =
     (0 \<le> s \<and> s \<le> nspin w \<and> 0 \<le> k \<and> k \<le> nkpt w \<and>
      (case np_index2 (nbnd w) s k of Inl e \<Rightarrow> False | Inr n \<Rightarrow> 0 \<le> b \<and> b \<le> n))"

text \<open>The exceptions numpy raises while the constructor fills its arrays.\<close>

definition raised_by_numpy :: "error \<Rightarrow> bool" where
  "raised_by_numpy e = (e = PyValueError \<or> e = PyIndexError)"



section \<open>Example data\<close>

text \<open>
  A spin-polarised wavefunction on a 2 x 2 x 2 grid with sample volume 8, two bands in the
  first spin channel and three in the second, and fractional occupation numbers given per
  channel.
\<close>

definition ex_sample :: sample where
  "ex_sample = \<lparr> omega = 8 \<rparr>"

definition ex_grid :: fftgrid where
  "ex_grid = \<lparr> grid_n1 = 2, grid_n2 = 2, grid_n3 = 2, grid_N = 8 \<rparr>"

definition ex_occ :: occ_arg where
  "ex_occ = Occ3D [[[NpFloat 1, NpFloat 0, NpFloat 7]], [[NpFloat 1, NpFloat 1, NpFloat (1/2)]]]"

definition ex_wfc :: wavefunction where
  "ex_wfc = \<lparr> sample = ex_sample, wgrid = ex_grid, dgrid = ex_grid, nspin = 2, nkpt = 1,
              nbnd = [[2], [3]],
              occ = [[[NpInt 1, NpInt 0, NpInt 0]], [[NpInt 1, NpInt 1, NpInt 0]]],
              gamma = True,
              idx_skb_map = [(0, (0, 0, 0)), (1, (0, 0, 1)), (2, (1, 0, 0)), (3, (1, 0, 1)),
                             (4, (1, 0, 2))],
              norb = 5,
              skb_idx_map = [((0, 0, 0), 0), ((0, 0, 1), 1), ((1, 0, 0), 2), ((1, 0, 1), 3),
                             ((1, 0, 2), 4)] \<rparr>"

text \<open>The example of the specification: two spins, one k point, three bands each.\<close>

definition ex_wfc_uniform :: wavefunction where
  "ex_wfc_uniform = \<lparr> sample = ex_sample, wgrid = ex_grid, dgrid = ex_grid, nspin = 2, nkpt = 1,
              nbnd = [[3], [3]],
              occ = [[[NpFloat 1, NpFloat 1, NpFloat (1/2)]], [[NpFloat 1, NpFloat 1, NpFloat (1/2)]]],
              gamma = True,
              idx_skb_map = [(0, (0, 0, 0)), (1, (0, 0, 1)), (2, (0, 0, 2)), (3, (1, 0, 0)),
                             (4, (1, 0, 1)), (5, (1, 0, 2))],
              norb = 6,
              skb_idx_map = [((0, 0, 0), 0), ((0, 0, 1), 1), ((0, 0, 2), 2), ((1, 0, 0), 3),
                             ((1, 0, 1), 4), ((1, 0, 2), 5)] \<rparr>"


section \<open>The index maps built by the constructor\<close>

lemma update_fresh: "k \<notin> fst ` set al \<Longrightarrow> AList.update k v al = al @ [(k, v)]"
  by (induction al) auto

lemma idx_list_snoc: "idx_list (ts @ [t]) = idx_list ts @ [(int (length ts), t)]"
  by (simp add: idx_list_def)

lemma keys_idx_list: "map fst (idx_list ts) = map int [0..<length ts]"
  by (simp add: idx_list_def)

lemma length_idx_list: "length (idx_list ts) = length ts"
  by (simp add: idx_list_def)

lemma band_step_idx_list:
  "band_step s k b (idx_list ts, int (length ts)) = (idx_list (ts @ [(s, k, b)]), int (length (ts @ [(s, k, b)])))"
proof -
  have "int (length ts) \<notin> fst ` set (idx_list ts)"
    using keys_idx_list [of ts] by (metis atLeastLessThan_iff image_set less_irrefl nat_int set_map set_upt imageE)
  then show ?thesis
    by (simp add: band_step_def update_fresh idx_list_snoc)
qed

lemma fold_band_step:
  "fold (band_step s k) bs (idx_list ts, int (length ts))
     = (idx_list (ts @ map (\<lambda>b. (s, k, b)) bs), int (length (ts @ map (\<lambda>b. (s, k, b)) bs)))"
proof (induction bs arbitrary: ts)
  case Nil
  show ?case by simp
next
  case (Cons b bs)
  show ?case
    using Cons.IH [of "ts @ [(s, k, b)]"] by (simp add: band_step_idx_list del: length_append)
qed

lemma fold_channel_step:
  "chans_ok nb chs \<Longrightarrow>
   fold_err (channel_step nb) chs (idx_list ts, int (length ts))
     = Inr (idx_list (ts @ all_triples nb chs), int (length (ts @ all_triples nb chs)))"
proof (induction chs arbitrary: ts)
  case Nil
  show ?case by (simp add: all_triples_def)
next
  case (Cons ch chs)
  obtain s k where ch: "ch = (s, k)" by (cases ch)
  from Cons.prems obtain n where n: "np_index2 nb s k = Inr n"
    by (auto simp: chans_ok_def ch)
  have rest: "chans_ok nb chs"
    using Cons.prems by (simp add: chans_ok_def)
  have step: "channel_step nb ch (idx_list ts, int (length ts))
      = Inr (idx_list (ts @ chan_triples nb ch), int (length (ts @ chan_triples nb ch)))"
    by (simp add: channel_step_def ch n chan_triples_def fold_band_step)
  show ?case
    using Cons.IH [OF rest, of "ts @ chan_triples nb ch"]
    by (simp add: step all_triples_def del: length_append)
qed

lemma build_idx_skb_map_eq:
  "chans_ok nb (ndindex ns nk) \<Longrightarrow>
   build_idx_skb_map ns nk nb
     = Inr (idx_list (all_triples nb (ndindex ns nk)), int (length (all_triples nb (ndindex ns nk))))"
  using fold_channel_step [of nb "ndindex ns nk" "[]"]
  by (simp add: build_idx_skb_map_def idx_list_def)

lemma fold_err_append:
  "fold_err f (xs @ ys) s = (case fold_err f xs s of Inl e \<Rightarrow> Inl e | Inr s' \<Rightarrow> fold_err f ys s')"
  by (induction xs arbitrary: s) (auto split: sum.splits)

lemma map_of_idx_list:
  "map_of (idx_list ts) i = (if 0 \<le> i \<and> i < int (length ts) then Some (ts ! nat i) else None)"
proof (induction ts rule: rev_induct)
  case Nil
  show ?case by (simp add: idx_list_def)
next
  case (snoc t ts)
  show ?case
    using snoc.IH by (auto simp: idx_list_snoc map_add_def nth_append split: option.splits)
qed

lemma skb_fold_prefix:
  "distinct ts \<Longrightarrow> j \<le> length ts \<Longrightarrow>
   fold_err (\<lambda>idx acc. case map_of (idx_list ts) idx of None \<Rightarrow> Inl PyKeyError
                        | Some t \<Rightarrow> Inr (AList.update t idx acc))
            (map int [0..<j]) []
     = Inr (swap_list (idx_list (take j ts)))"
proof (induction j)
  case 0
  show ?case by (simp add: swap_list_def idx_list_def)
next
  case (Suc j)
  have j: "j < length ts" using Suc.prems by simp
  have tk: "take (Suc j) ts = take j ts @ [ts ! j]"
    using j by (simp add: take_Suc_conv_app_nth)
  have fresh: "ts ! j \<notin> fst ` set (swap_list (idx_list (take j ts)))"
  proof -
    have "fst ` set (swap_list (idx_list (take j ts))) = set (take j ts)"
      by (force simp: swap_list_def idx_list_def set_zip in_set_conv_nth)
    moreover have "ts ! j \<notin> set (take j ts)"
      using Suc.prems(1) j by (metis distinct_take id_take_nth_drop not_distinct_conv_prefix append.assoc append_Cons)
    ultimately show ?thesis by simp
  qed
  have snoc: "swap_list (idx_list (take j ts) @ [(int j, ts ! j)])
      = swap_list (idx_list (take j ts)) @ [(ts ! j, int j)]"
    by (simp add: swap_list_def)
  have len: "length (take j ts) = j" using j by simp
  show ?case
    using Suc.IH Suc.prems j
    by (simp add: fold_err_append map_of_idx_list tk idx_list_snoc len snoc update_fresh [OF fresh])
qed

lemma build_skb_idx_map_eq:
  "distinct ts \<Longrightarrow> build_skb_idx_map (idx_list ts) (int (length ts)) = Inr (swap_list (idx_list ts))"
  using skb_fold_prefix [of ts "length ts"] by (simp add: build_skb_idx_map_def py_range_def)

lemma make_nbnd_shape:
  assumes "make_nbnd ns nk a = Inr nb"
  shows "shape2 nb ns nk"
proof (cases a)
  case (NbndInt n)
  have ok: "\<not> (ns < 0 \<or> nk < 0)"
    using assms unfolding make_nbnd_def NbndInt by (cases "ns < 0 \<or> nk < 0") simp_all
  then have "nb = replicate (nat ns) (replicate (nat nk) n)"
    using assms unfolding make_nbnd_def NbndInt by simp
  then show ?thesis
    using ok by (simp add: shape2_def)
next
  case (NbndArray rows)
  have r: "rectangular rows"
    using assms unfolding make_nbnd_def NbndArray by (cases "rectangular rows") simp_all
  have s: "np_shape2 rows = [ns, nk]"
    using assms r unfolding make_nbnd_def NbndArray
    by (cases "np_shape2 rows = [ns, nk]") simp_all
  have e: "nb = rows"
    using assms r s unfolding make_nbnd_def NbndArray by simp
  have ne: "rows \<noteq> []"
    using s unfolding np_shape2_def by (cases "rows = []") simp_all
  have "int (length rows) = ns" "int (length (hd rows)) = nk"
    using s ne unfolding np_shape2_def by simp_all
  then show ?thesis
    using r e by (simp add: shape2_def rectangular_def)
qed

lemma np_index2_shape:
  "shape2 a ns nk \<Longrightarrow> 0 \<le> s \<Longrightarrow> s < ns \<Longrightarrow> 0 \<le> k \<Longrightarrow> k < nk \<Longrightarrow>
   np_index2 a s k = Inr (a ! nat s ! nat k)"
  by (auto simp: shape2_def np_index2_def np_index_def Let_def)

lemma set_py_range: "set (py_range n) = {i. 0 \<le> i \<and> i < n}"
proof -
  have "i \<in> int ` {0..<nat n} \<longleftrightarrow> 0 \<le> i \<and> i < n" for i
  proof
    assume "i \<in> int ` {0..<nat n}"
    then show "0 \<le> i \<and> i < n" by auto
  next
    assume "0 \<le> i \<and> i < n"
    then have "nat i \<in> {0..<nat n}" "i = int (nat i)" by auto
    then show "i \<in> int ` {0..<nat n}" by blast
  qed
  then show ?thesis by (auto simp: py_range_def)
qed

lemma set_ndindex: "set (ndindex ns nk) = {(s, k). 0 \<le> s \<and> s < ns \<and> 0 \<le> k \<and> k < nk}"
  by (auto simp: ndindex_def set_py_range)

lemma chans_ok_shape: "shape2 nb ns nk \<Longrightarrow> chans_ok nb (ndindex ns nk)"
  by (auto simp: chans_ok_def set_ndindex np_index2_shape)

lemma sorted_py_range: "sorted_wrt (<) (py_range n)"
  by (simp add: py_range_def sorted_wrt_map)

lemma sorted_product:
  "sorted_wrt (<) xs \<Longrightarrow> sorted_wrt (<) ys \<Longrightarrow> sorted_wrt ch_less (List.product xs ys)"
proof (induction xs)
  case Nil
  show ?case by simp
next
  case (Cons x xs)
  have "sorted_wrt ch_less (map (Pair x) ys)"
    using Cons.prems(2) by (simp add: sorted_wrt_map ch_less_def)
  moreover have "sorted_wrt ch_less (List.product xs ys)"
    using Cons by simp
  moreover have "\<forall>c \<in> set (map (Pair x) ys). \<forall>d \<in> set (List.product xs ys). ch_less c d"
    using Cons.prems(1) by (auto simp: ch_less_def)
  ultimately show ?case
    by (simp add: sorted_wrt_append)
qed

lemma sorted_ndindex: "sorted_wrt ch_less (ndindex ns nk)"
  by (simp add: ndindex_def sorted_product sorted_py_range)

lemma chan_triples_channel: "t \<in> set (chan_triples nb ch) \<Longrightarrow> (fst t, fst (snd t)) = ch"
  by (auto simp: chan_triples_def split: sum.splits prod.splits)

lemma sorted_chan_triples: "sorted_wrt skb_less (chan_triples nb ch)"
  using sorted_py_range
  by (auto simp: chan_triples_def sorted_wrt_map skb_less_def split: sum.splits prod.splits)

lemma sorted_all_triples:
  "sorted_wrt ch_less chs \<Longrightarrow> sorted_wrt skb_less (all_triples nb chs)"
proof (induction chs)
  case Nil
  show ?case by (simp add: all_triples_def)
next
  case (Cons ch chs)
  have tail: "sorted_wrt skb_less (all_triples nb chs)"
    using Cons by simp
  have cross: "skb_less t u"
    if t: "t \<in> set (chan_triples nb ch)" and u: "u \<in> set (all_triples nb chs)" for t u
  proof -
    from u obtain d where d: "d \<in> set chs" "u \<in> set (chan_triples nb d)"
      by (auto simp: all_triples_def)
    have "ch_less ch d" using Cons.prems d(1) by simp
    moreover have "(fst t, fst (snd t)) = ch" "(fst u, fst (snd u)) = d"
      using t d(2) by (simp_all add: chan_triples_channel)
    ultimately show ?thesis
      by (cases t; cases u) (auto simp: skb_less_def ch_less_def)
  qed
  have "all_triples nb (ch # chs) = chan_triples nb ch @ all_triples nb chs"
    by (simp add: all_triples_def)
  then show ?case
    using tail cross by (simp add: sorted_wrt_append sorted_chan_triples)
qed

lemma skb_less_irrefl: "\<not> skb_less t t"
  by (cases t) (simp add: skb_less_def)

lemma skb_less_trans: "skb_less t u \<Longrightarrow> skb_less u v \<Longrightarrow> skb_less t v"
  by (cases t; cases u; cases v) (auto simp: skb_less_def)

lemma sorted_skb_nth:
  "sorted_wrt skb_less ts \<Longrightarrow> i < j \<Longrightarrow> j < length ts \<Longrightarrow> skb_less (ts ! i) (ts ! j)"
  by (simp add: sorted_wrt_iff_nth_less)

lemma sorted_skb_distinct: "sorted_wrt skb_less ts \<Longrightarrow> distinct ts"
  by (induction ts) (auto simp: skb_less_irrefl)

lemma in_chan_triples:
  "np_index2 nb s k = Inr n \<Longrightarrow>
   t \<in> set (chan_triples nb (s, k)) \<longleftrightarrow> (\<exists>b. t = (s, k, b) \<and> 0 \<le> b \<and> b < n)"
  by (auto simp: chan_triples_def set_py_range)

lemma in_all_triples:
  assumes "shape2 nb ns nk"
  shows "(s, k, b) \<in> set (all_triples nb (ndindex ns nk))
     \<longleftrightarrow> 0 \<le> s \<and> s < ns \<and> 0 \<le> k \<and> k < nk \<and> 0 \<le> b \<and> b < nb ! nat s ! nat k"
proof
  assume "(s, k, b) \<in> set (all_triples nb (ndindex ns nk))"
  then obtain ch where ch: "ch \<in> set (ndindex ns nk)" "(s, k, b) \<in> set (chan_triples nb ch)"
    by (auto simp: all_triples_def)
  from ch(2) have e: "ch = (s, k)" using chan_triples_channel by fastforce
  with ch(1) have r: "0 \<le> s" "s < ns" "0 \<le> k" "k < nk" by (simp_all add: set_ndindex)
  have "np_index2 nb s k = Inr (nb ! nat s ! nat k)"
    using assms r by (simp add: np_index2_shape)
  from in_chan_triples [OF this] ch(2) e r
  show "0 \<le> s \<and> s < ns \<and> 0 \<le> k \<and> k < nk \<and> 0 \<le> b \<and> b < nb ! nat s ! nat k"
    by simp
next
  assume r: "0 \<le> s \<and> s < ns \<and> 0 \<le> k \<and> k < nk \<and> 0 \<le> b \<and> b < nb ! nat s ! nat k"
  then have "np_index2 nb s k = Inr (nb ! nat s ! nat k)"
    using assms by (simp add: np_index2_shape)
  from in_chan_triples [OF this] r have "(s, k, b) \<in> set (chan_triples nb (s, k))"
    by simp
  moreover have "(s, k) \<in> set (ndindex ns nk)" using r by (simp add: set_ndindex)
  ultimately show "(s, k, b) \<in> set (all_triples nb (ndindex ns nk))"
    unfolding all_triples_def by (simp only: set_concat set_map) blast
qed

lemma sorted_built_triples: "sorted_wrt skb_less (all_triples nb (ndindex ns nk))"
  by (simp add: sorted_all_triples sorted_ndindex)

lemma init_cases:
  assumes "Wavefunction_init smp wg dg ns nk a occ_in gam = Inr w"
  obtains nb oc m idx sm where
    "nk = 1" and "make_nbnd ns nk a = Inr nb" and "make_occ ns nk nb occ_in = Inr oc"
    and "build_idx_skb_map ns nk nb = Inr (m, idx)"
    and "build_skb_idx_map m (int (length m)) = Inr sm"
    and "w = \<lparr> sample = smp, wgrid = wg, dgrid = dg, nspin = ns, nkpt = nk, nbnd = nb,
               occ = oc, gamma = gam, idx_skb_map = m, norb = int (length m),
               skb_idx_map = sm \<rparr>"
proof -
  have k: "nk = 1"
    using assms unfolding Wavefunction_init_def by (cases "nk = 1") simp_all
  obtain nb where nb: "make_nbnd ns nk a = Inr nb"
    using assms k unfolding Wavefunction_init_def by (cases "make_nbnd ns nk a") simp_all
  obtain oc where oc: "make_occ ns nk nb occ_in = Inr oc"
    using assms k nb unfolding Wavefunction_init_def by (cases "make_occ ns nk nb occ_in") simp_all
  obtain m idx where m: "build_idx_skb_map ns nk nb = Inr (m, idx)"
    using assms k nb oc unfolding Wavefunction_init_def
    by (cases "build_idx_skb_map ns nk nb") auto
  obtain sm where sm: "build_skb_idx_map m (int (length m)) = Inr sm"
    using assms k nb oc m unfolding Wavefunction_init_def
    by (cases "build_skb_idx_map m (int (length m))") simp_all
  have "w = \<lparr> sample = smp, wgrid = wg, dgrid = dg, nspin = ns, nkpt = nk, nbnd = nb,
               occ = oc, gamma = gam, idx_skb_map = m, norb = int (length m),
               skb_idx_map = sm \<rparr>"
    using assms k nb oc m sm unfolding Wavefunction_init_def by simp
  with k nb oc m sm show thesis by (rule that)
qed

lemma init_fields:
  assumes "Wavefunction_init smp wg dg ns nk a occ_in gam = Inr w"
  shows "nk = 1" and "nspin w = ns" and "nkpt w = nk" and "make_nbnd ns nk a = Inr (nbnd w)"
    and "make_occ ns nk (nbnd w) occ_in = Inr (occ w)" and "sample w = smp" and "wgrid w = wg"
  using assms by (auto elim!: init_cases)

lemma init_built:
  assumes "Wavefunction_init smp wg dg ns nk a occ_in gam = Inr w"
  shows "built w"
proof -
  from assms obtain nb oc m idx sm where
    k: "nk = 1" and nb: "make_nbnd ns nk a = Inr nb"
    and m: "build_idx_skb_map ns nk nb = Inr (m, idx)"
    and sm: "build_skb_idx_map m (int (length m)) = Inr sm"
    and w: "w = \<lparr> sample = smp, wgrid = wg, dgrid = dg, nspin = ns, nkpt = nk, nbnd = nb,
               occ = oc, gamma = gam, idx_skb_map = m, norb = int (length m),
               skb_idx_map = sm \<rparr>"
    by (rule init_cases)
  have sh: "shape2 nb ns nk"
    using nb by (rule make_nbnd_shape)
  let ?ts = "all_triples nb (ndindex ns nk)"
  have m': "m = idx_list ?ts"
    using sh m by (simp add: build_idx_skb_map_eq chans_ok_shape)
  have d: "distinct ?ts"
    using sorted_built_triples by (rule sorted_skb_distinct)
  have "sm = swap_list (idx_list ?ts)"
    using sm build_skb_idx_map_eq [OF d] by (simp add: m' length_idx_list)
  then show ?thesis
    using sh m' by (simp add: built_def w length_idx_list)
qed

lemma map_of_swap_idx_list:
  assumes "distinct ts"
  shows "map_of (swap_list (idx_list ts)) t = Some i \<longleftrightarrow> 0 \<le> i \<and> i < int (length ts) \<and> ts ! nat i = t"
proof -
  have dk: "distinct (map fst (swap_list (idx_list ts)))"
  proof -
    have "map fst (swap_list (idx_list ts)) = ts"
      by (simp add: swap_list_def idx_list_def map_idI zip_map1 map_snd_zip case_prod_unfold comp_def)
    then show ?thesis using assms by simp
  qed
  have "map_of (swap_list (idx_list ts)) t = Some i \<longleftrightarrow> (t, i) \<in> set (swap_list (idx_list ts))"
    using dk by (auto intro: map_of_is_SomeI dest: map_of_SomeD)
  also have "\<dots> \<longleftrightarrow> (i, t) \<in> set (idx_list ts)"
    by (auto simp: swap_list_def)
  also have "\<dots> \<longleftrightarrow> 0 \<le> i \<and> i < int (length ts) \<and> ts ! nat i = t"
  proof
    assume "(i, t) \<in> set (idx_list ts)"
    then obtain n where "n < length ts" "i = int n" "t = ts ! n"
      by (auto simp: idx_list_def set_zip)
    then show "0 \<le> i \<and> i < int (length ts) \<and> ts ! nat i = t" by simp
  next
    assume h: "0 \<le> i \<and> i < int (length ts) \<and> ts ! nat i = t"
    then have "nat i < length ts" "i = int (nat i)" "t = ts ! nat i" by auto
    then show "(i, t) \<in> set (idx_list ts)"
      unfolding idx_list_def set_zip by (intro CollectI exI [of _ "nat i"]) simp
  qed
  finally show ?thesis .
qed

lemma valid_skb_built:
  assumes "built w"
  shows "valid_skb w t \<longleftrightarrow> t \<in> set (all_triples (nbnd w) (ndindex (nspin w) (nkpt w)))"
proof -
  obtain s k b where t: "t = (s, k, b)" by (cases t)
  have sh: "shape2 (nbnd w) (nspin w) (nkpt w)" using assms by (simp add: built_def)
  show ?thesis
  proof (cases "0 \<le> s \<and> s < nspin w \<and> 0 \<le> k \<and> k < nkpt w")
    case True
    then have "np_index2 (nbnd w) s k = Inr (nbnd w ! nat s ! nat k)"
      using sh by (simp add: np_index2_shape)
    then show ?thesis
      using True by (simp add: t valid_skb_def in_all_triples [OF sh])
  next
    case False
    then show ?thesis
      by (auto simp: t valid_skb_def in_all_triples [OF sh])
  qed
qed

lemma built_skb2idx:
  assumes "built w"
  shows "skb2idx w s k b = Some i \<longleftrightarrow>
         0 \<le> i \<and> i < norb w \<and> all_triples (nbnd w) (ndindex (nspin w) (nkpt w)) ! nat i = (s, k, b)"
proof -
  let ?ts = "all_triples (nbnd w) (ndindex (nspin w) (nkpt w))"
  have d: "distinct ?ts" using sorted_built_triples by (rule sorted_skb_distinct)
  show ?thesis
    using assms map_of_swap_idx_list [OF d, of "(s, k, b)" i]
    by (simp add: built_def skb2idx_def)
qed

lemma built_idx2skb:
  assumes "built w"
  shows "idx2skb w i =
     (if 0 \<le> i \<and> i < norb w then Inr (all_triples (nbnd w) (ndindex (nspin w) (nkpt w)) ! nat i)
      else Inl PyKeyError)"
  using assms by (simp add: built_def idx2skb_def map_of_idx_list)

lemma sorted_rank:
  assumes s: "sorted_wrt skb_less ts" and n: "n < length ts"
  shows "card {u \<in> set ts. skb_less u (ts ! n)} = n"
proof -
  have d: "distinct ts" using s by (rule sorted_skb_distinct)
  have "{u \<in> set ts. skb_less u (ts ! n)} = set (take n ts)"
  proof (rule set_eqI)
    fix u
    show "u \<in> {u \<in> set ts. skb_less u (ts ! n)} \<longleftrightarrow> u \<in> set (take n ts)"
    proof
      assume "u \<in> {u \<in> set ts. skb_less u (ts ! n)}"
      then obtain m where m: "m < length ts" "u = ts ! m" and l: "skb_less (ts ! m) (ts ! n)"
        by (auto simp: in_set_conv_nth)
      have "m < n"
      proof (rule ccontr)
        assume "\<not> m < n"
        then consider "m = n" | "n < m" by linarith
        then show False
        proof cases
          case 1
          then show False using l skb_less_irrefl by simp
        next
          case 2
          then have "skb_less (ts ! n) (ts ! m)" using s m(1) by (simp add: sorted_skb_nth)
          then have "skb_less (ts ! m) (ts ! m)" using l skb_less_trans by blast
          then show False using skb_less_irrefl by simp
        qed
      qed
      then show "u \<in> set (take n ts)"
        using m n by (auto simp: in_set_conv_nth intro!: exI [of _ m])
    next
      assume "u \<in> set (take n ts)"
      then obtain m where "m < n" "u = ts ! m"
        using n by (auto simp: in_set_conv_nth)
      then show "u \<in> {u \<in> set ts. skb_less u (ts ! n)}"
        using s n by (simp add: sorted_skb_nth)
    qed
  qed
  moreover have "card (set (take n ts)) = n"
    using d n by (simp add: distinct_card)
  ultimately show ?thesis by simp
qed

lemma built_rank:
  assumes b: "built w" and i: "skb2idx w s k b = Some i"
  shows "i = int (card {t. valid_skb w t \<and> skb_less t (s, k, b)})"
proof -
  let ?ts = "all_triples (nbnd w) (ndindex (nspin w) (nkpt w))"
  from i have r: "0 \<le> i" "i < norb w" "?ts ! nat i = (s, k, b)"
    using built_skb2idx [OF b] by simp_all
  have n: "nat i < length ?ts"
    using r b by (simp add: built_def)
  have "{t. valid_skb w t \<and> skb_less t (s, k, b)} = {u \<in> set ?ts. skb_less u (?ts ! nat i)}"
    using valid_skb_built [OF b] r(3) by simp
  then have "card {t. valid_skb w t \<and> skb_less t (s, k, b)} = nat i"
    using sorted_rank [OF sorted_built_triples n] by simp
  then show ?thesis using r(1) by simp
qed

lemma built_valid_has_idx:
  assumes b: "built w" and v: "valid_skb w (s, k, b)"
  shows "\<exists>i. 0 \<le> i \<and> i < norb w \<and> skb2idx w s k b = Some i \<and> idx2skb w i = Inr (s, k, b)"
proof -
  let ?ts = "all_triples (nbnd w) (ndindex (nspin w) (nkpt w))"
  from v have "(s, k, b) \<in> set ?ts" using valid_skb_built [OF b] by simp
  then obtain n where n: "n < length ?ts" "?ts ! n = (s, k, b)"
    by (auto simp: in_set_conv_nth)
  have no: "norb w = int (length ?ts)" using b by (simp add: built_def)
  have "skb2idx w s k b = Some (int n)"
    using n no built_skb2idx [OF b, of s k b "int n"] by simp
  moreover have "idx2skb w (int n) = Inr (s, k, b)"
    using n no by (simp add: built_idx2skb [OF b])
  ultimately show ?thesis using n(1) no by auto
qed

lemma built_idx_has_valid:
  assumes b: "built w" and i: "0 \<le> i" "i < norb w"
  shows "\<exists>s k b. valid_skb w (s, k, b) \<and> idx2skb w i = Inr (s, k, b) \<and> skb2idx w s k b = Some i"
proof -
  let ?ts = "all_triples (nbnd w) (ndindex (nspin w) (nkpt w))"
  have no: "norb w = int (length ?ts)" using b by (simp add: built_def)
  obtain s k b' where t: "?ts ! nat i = (s, k, b')" by (cases "?ts ! nat i")
  have "?ts ! nat i \<in> set ?ts" using i no by simp
  then have "valid_skb w (s, k, b')" using valid_skb_built [OF b] t by simp
  moreover have "idx2skb w i = Inr (s, k, b')" using i t by (simp add: built_idx2skb [OF b])
  moreover have "skb2idx w s k b' = Some i" using i t built_skb2idx [OF b, of s k b' i] by simp
  ultimately show ?thesis by blast
qed

lemma map_product:
  "map f (List.product xs ys) = concat (map (\<lambda>x. map (\<lambda>y. f (x, y)) ys) xs)"
  by (induction xs) (simp_all add: comp_def)

lemma length_chan_triples:
  "np_index2 nb s k = Inr n \<Longrightarrow> int (length (chan_triples nb (s, k))) = max 0 n"
  by (simp add: chan_triples_def py_range_def)

lemma entries_ndindex:
  assumes "shape2 a ns nk"
  shows "map (\<lambda>(s, k). a ! nat s ! nat k) (ndindex ns nk) = concat a"
proof -
  have len: "nat ns = length a" using assms by (auto simp: shape2_def)
  have row: "map (\<lambda>y. a ! i ! nat y) (py_range nk) = a ! i" if "i < length a" for i
  proof -
    have "nat nk = length (a ! i)" using assms that by (auto simp: shape2_def)
    then have "map (\<lambda>y. a ! i ! nat y) (py_range nk) = map (\<lambda>j. a ! i ! j) [0..<length (a ! i)]"
      by (simp add: py_range_def comp_def)
    then show ?thesis by (simp add: map_nth)
  qed
  have "map (\<lambda>(s, k). a ! nat s ! nat k) (ndindex ns nk)
      = concat (map (\<lambda>i. map (\<lambda>y. a ! i ! nat y) (py_range nk)) [0..<length a])"
    by (simp add: ndindex_def map_product py_range_def [of ns] len comp_def)
  also have "\<dots> = concat (map (\<lambda>i. a ! i) [0..<length a])"
    by (intro arg_cong [where f = concat] map_cong refl) (simp add: row)
  also have "\<dots> = concat a" by (simp add: map_nth)
  finally show ?thesis .
qed

lemma length_all_triples:
  assumes "shape2 nb ns nk"
  shows "int (length (all_triples nb (ndindex ns nk))) = (\<Sum>n\<leftarrow>concat nb. max 0 n)"
proof -
  have each: "int (length (chan_triples nb ch)) = max 0 (case ch of (s, k) \<Rightarrow> nb ! nat s ! nat k)"
    if "ch \<in> set (ndindex ns nk)" for ch
  proof -
    obtain s k where ch: "ch = (s, k)" by (cases ch)
    with that have "np_index2 nb s k = Inr (nb ! nat s ! nat k)"
      using assms by (simp add: set_ndindex np_index2_shape)
    then show ?thesis by (simp add: ch length_chan_triples)
  qed
  have "int (length (all_triples nb (ndindex ns nk)))
      = (\<Sum>ch\<leftarrow>ndindex ns nk. int (length (chan_triples nb ch)))"
    by (simp add: all_triples_def length_concat comp_def sum_list_of_nat [symmetric])
  also have "\<dots> = (\<Sum>ch\<leftarrow>ndindex ns nk. max 0 (case ch of (s, k) \<Rightarrow> nb ! nat s ! nat k))"
    using each by (simp cong: map_cong)
  also have "\<dots> = (\<Sum>n\<leftarrow>map (\<lambda>(s, k). nb ! nat s ! nat k) (ndindex ns nk). max 0 n)"
    by (simp add: comp_def)
  also have "\<dots> = (\<Sum>n\<leftarrow>concat nb. max 0 n)"
    by (simp only: entries_ndindex [OF assms])
  finally show ?thesis .
qed

lemma built_norb:
  assumes "built w" and "\<forall>n \<in> set (concat (nbnd w)). 0 \<le> n"
  shows "norb w = sum_list (concat (nbnd w))"
proof -
  have "norb w = (\<Sum>n\<leftarrow>concat (nbnd w). max 0 n)"
    using assms(1) length_all_triples [of "nbnd w" "nspin w" "nkpt w"] by (simp add: built_def)
  also have "\<dots> = (\<Sum>n\<leftarrow>concat (nbnd w). n)"
    using assms(2) by (intro arg_cong [where f = sum_list] map_cong refl) (auto simp: max_def)
  finally show ?thesis by simp
qed

lemma ex_wfc_init:
  "Wavefunction_init ex_sample ex_grid ex_grid 2 1 (NbndArray [[2], [3]]) ex_occ True = Inr ex_wfc"
  by (simp add: Wavefunction_init_def make_nbnd_def rectangular_def np_shape2_def make_occ_def
      ex_occ_def np_max_def occ_step_def assign_slice0_def py_slice0_def np_cast_int_def
      build_idx_skb_map_def ndindex_def py_range_def channel_step_def np_index2_def np_index_def
      band_step_def build_skb_idx_map_def ex_wfc_def eval_nat_numeral upt_rec)

text \<open>
  The constructor returns a wavefunction for every \<open>nspin \<ge> 1\<close>, \<open>nkpt = 1\<close>, every accepted
  \<open>nbnd\<close> argument and every one-dimensional \<open>occ\<close>.
\<close>

lemma Wavefunction_init_returns:
  assumes "1 \<le> ns" and "make_nbnd ns 1 a = Inr nb"
  shows "\<exists>w. Wavefunction_init smp wg dg ns 1 a (Occ1D xs) gam = Inr w"
proof -
  have sh: "shape2 nb ns 1" using assms(2) by (rule make_nbnd_shape)
  let ?ts = "all_triples nb (ndindex ns 1)"
  have oc: "make_occ ns 1 nb (Occ1D xs) = Inr (replicate (nat ns) (replicate (nat 1) xs))"
    using assms(1) by (simp add: make_occ_def)
  have m: "build_idx_skb_map ns 1 nb = Inr (idx_list ?ts, int (length ?ts))"
    using sh by (simp add: build_idx_skb_map_eq chans_ok_shape)
  have "distinct ?ts"
    using sorted_built_triples by (rule sorted_skb_distinct)
  then have "build_skb_idx_map (idx_list ?ts) (int (length (idx_list ?ts)))
      = Inr (swap_list (idx_list ?ts))"
    by (simp add: build_skb_idx_map_eq length_idx_list)
  then show ?thesis
    using assms(2) oc m unfolding Wavefunction_init_def by simp
qed

section \<open>Claims about the index maps\<close>

text \<open>
  C1. Whenever the constructor returns a wavefunction (which requires \<open>nkpt = 1\<close> and
  \<open>nspin \<ge> 1\<close>, with any band counts), the two index maps are inverse bijections between
  the valid triples and the internal indices \<open>0, \<dots>, norb - 1\<close>: every valid triple
  \<open>(s, k, b)\<close> has an internal index \<open>i\<close> in range with \<open>idx2skb i = (s, k, b)\<close>, and every
  \<open>i\<close> in \<open>[0, norb)\<close> is mapped by \<open>idx2skb\<close> to a valid triple that \<open>skb2idx\<close> maps back
  to \<open>i\<close>.
\<close>

theorem index_maps_bijection:
  assumes "Wavefunction_init smp wg dg ns nk a occ_in gam = Inr w"
  shows "(\<forall>s k b. valid_skb w (s, k, b) \<longrightarrow>
            (\<exists>i. 0 \<le> i \<and> i < norb w \<and> skb2idx w s k b = Some i \<and> idx2skb w i = Inr (s, k, b)))
       \<and> (\<forall>i. 0 \<le> i \<and> i < norb w \<longrightarrow>
            (\<exists>s k b. valid_skb w (s, k, b) \<and> idx2skb w i = Inr (s, k, b) \<and> skb2idx w s k b = Some i))"
  using built_valid_has_idx [OF init_built [OF assms]] built_idx_has_valid [OF init_built [OF assms]]
  by blast

theorem index_maps_bijection_witness:
  "Wavefunction_init ex_sample ex_grid ex_grid 2 1 (NbndArray [[2], [3]]) ex_occ True = Inr ex_wfc
   \<and> valid_skb ex_wfc (1, 0, 2) \<and> skb2idx ex_wfc 1 0 2 = Some 4
   \<and> (0::int) \<le> 4 \<and> 4 < norb ex_wfc \<and> idx2skb ex_wfc 4 = Inr (1, 0, 2)"
proof -
  note bij = index_maps_bijection [OF ex_wfc_init]
  have v: "valid_skb ex_wfc (1, 0, 2)"
    by (simp add: valid_skb_def ex_wfc_def np_index2_def np_index_def)
  have i: "skb2idx ex_wfc 1 0 2 = Some 4"
    by (simp add: skb2idx_def ex_wfc_def)
  from bij v obtain j where "skb2idx ex_wfc 1 0 2 = Some j" "0 \<le> j" "j < norb ex_wfc"
    "idx2skb ex_wfc j = Inr (1, 0, 2)"
    by blast
  with i v ex_wfc_init show ?thesis by simp
qed

section \<open>The order of the internal indices\<close>

lemma ex_wfc_uniform_init:
  "Wavefunction_init ex_sample ex_grid ex_grid 2 1 (NbndInt 3)
     (Occ1D [NpFloat 1, NpFloat 1, NpFloat (1/2)]) True = Inr ex_wfc_uniform"
  by (simp add: Wavefunction_init_def make_nbnd_def make_occ_def
      build_idx_skb_map_def ndindex_def py_range_def channel_step_def np_index2_def np_index_def
      band_step_def build_skb_idx_map_def ex_wfc_uniform_def eval_nat_numeral upt_rec)

lemma uniform_2_3_maps:
  "swap_list (idx_list (all_triples [[3], [3]] (ndindex 2 1)))
     = [((0, 0, 0), 0), ((0, 0, 1), 1), ((0, 0, 2), 2), ((1, 0, 0), 3), ((1, 0, 1), 4), ((1, 0, 2), 5)]"
  by code_simp

lemma uniform_2_3_length: "length (all_triples [[3], [3]] (ndindex 2 1)) = 6"
  by code_simp

text \<open>
  C2. In a constructed wavefunction the internal index of a valid triple is the number of
  valid triples that precede it in the lexicographic order (spin, then k point, then band);
  with C1 the indices are exactly \<open>0, \<dots>, norb - 1\<close>. When no band count is negative,
  \<open>norb\<close> is the sum of all entries of \<open>nbnd\<close>. For \<open>nspin = 2\<close>, \<open>nkpt = 1\<close> and the uniform
  band count 3: \<open>norb = 6\<close>, the triple \<open>(1, 0, 2)\<close> has index 5 and \<open>(0, 0, 0)\<close> has index 0.
\<close>

theorem internal_index_is_rank:
  assumes "Wavefunction_init smp wg dg ns nk a occ_in gam = Inr w"
  shows "(\<forall>s k b. valid_skb w (s, k, b) \<longrightarrow>
            skb2idx w s k b = Some (int (card {t. valid_skb w t \<and> skb_less t (s, k, b)})))
       \<and> ((\<forall>n \<in> set (concat (nbnd w)). 0 \<le> n) \<longrightarrow> norb w = sum_list (concat (nbnd w)))
       \<and> (ns = 2 \<and> a = NbndInt 3 \<longrightarrow>
            norb w = 6 \<and> skb2idx w 1 0 2 = Some 5 \<and> skb2idx w 0 0 0 = Some 0)"
proof (intro conjI allI impI)
  note b = init_built [OF assms]
  fix s k b'
  assume v: "valid_skb w (s, k, b')"
  from built_valid_has_idx [OF b v] obtain i where i: "skb2idx w s k b' = Some i" by blast
  from built_rank [OF b i] i
  show "skb2idx w s k b' = Some (int (card {t. valid_skb w t \<and> skb_less t (s, k, b')}))"
    by simp
next
  assume "\<forall>n \<in> set (concat (nbnd w)). 0 \<le> n"
  then show "norb w = sum_list (concat (nbnd w))"
    using init_built [OF assms] by (rule built_norb [rotated])
next
  assume c: "ns = 2 \<and> a = NbndInt 3"
  note f = init_fields [OF assms]
  have nb: "nbnd w = [[3], [3]]"
    using f(4) f(1) c by (simp add: make_nbnd_def eval_nat_numeral)
  have "skb_idx_map w = swap_list (idx_list (all_triples [[3], [3]] (ndindex 2 1)))"
    and "norb w = int (length (all_triples [[3], [3]] (ndindex 2 1)))"
    using init_built [OF assms] f(1,2,3) c nb by (simp_all add: built_def)
  then show "norb w = 6" and "skb2idx w 1 0 2 = Some 5" and "skb2idx w 0 0 0 = Some 0"
    by (simp_all add: uniform_2_3_maps uniform_2_3_length skb2idx_def)
qed

theorem internal_index_is_rank_witness:
  "Wavefunction_init ex_sample ex_grid ex_grid 2 1 (NbndInt 3)
     (Occ1D [NpFloat 1, NpFloat 1, NpFloat (1/2)]) True = Inr ex_wfc_uniform
   \<and> valid_skb ex_wfc_uniform (1, 0, 2)
   \<and> card {t. valid_skb ex_wfc_uniform t \<and> skb_less t (1, 0, 2)} = 5
   \<and> concat (nbnd ex_wfc_uniform) = [3, 3]
   \<and> sum_list (concat (nbnd ex_wfc_uniform)) = 6
   \<and> norb ex_wfc_uniform = 6
   \<and> skb2idx ex_wfc_uniform 1 0 2 = Some 5 \<and> skb2idx ex_wfc_uniform 0 0 0 = Some 0"
proof -
  note r = internal_index_is_rank [OF ex_wfc_uniform_init]
  have v: "valid_skb ex_wfc_uniform (1, 0, 2)"
    by (simp add: valid_skb_def ex_wfc_uniform_def np_index2_def np_index_def)
  have p: "\<forall>n \<in> set (concat (nbnd ex_wfc_uniform)). 0 \<le> n"
    by (simp add: ex_wfc_uniform_def)
  from r v have "skb2idx ex_wfc_uniform 1 0 2
      = Some (int (card {t. valid_skb ex_wfc_uniform t \<and> skb_less t (1, 0, 2)}))"
    by blast
  moreover from r have "skb2idx ex_wfc_uniform 1 0 2 = Some 5" by simp
  ultimately have c: "card {t. valid_skb ex_wfc_uniform t \<and> skb_less t (1, 0, 2)} = 5"
    by simp
  from r p have "norb ex_wfc_uniform = sum_list (concat (nbnd ex_wfc_uniform))" by blast
  moreover have "concat (nbnd ex_wfc_uniform) = [3, 3]" by (simp add: ex_wfc_uniform_def)
  ultimately show ?thesis using r v c ex_wfc_uniform_init by simp
qed

section \<open>Errors of the constructor\<close>

lemma fold_err_Inl:
  "fold_err f xs s = Inl e \<Longrightarrow> \<exists>x s'. x \<in> set xs \<and> f x s' = Inl e"
proof (induction xs arbitrary: s)
  case Nil
  then show ?case by simp
next
  case (Cons x xs)
  show ?case
  proof (cases "f x s")
    case (Inl e')
    with Cons.prems have "f x s = Inl e" by simp
    then show ?thesis by auto
  next
    case (Inr s')
    with Cons.prems have "fold_err f xs s' = Inl e" by simp
    from Cons.IH [OF this] show ?thesis by auto
  qed
qed

lemma np_index_error: "np_index xs i = Inl e \<Longrightarrow> e = PyIndexError"
  by (auto simp: np_index_def Let_def split: if_splits)

lemma np_index2_error: "np_index2 a i j = Inl e \<Longrightarrow> e = PyIndexError"
  by (auto simp: np_index2_def split: sum.splits dest: np_index_error)

lemma make_nbnd_error: "make_nbnd ns nk a = Inl e \<Longrightarrow> e = PyValueError \<or> e = NbndShapeAssertion"
  by (cases a) (auto simp: make_nbnd_def split: if_splits)

lemma assign_slice0_error: "assign_slice0 row n rhs = Inl e \<Longrightarrow> e = PyValueError"
  by (auto simp: assign_slice0_def Let_def split: if_splits)

lemma occ_step_error: "occ_step nb occ_in ispin ikpt oc = Inl e \<Longrightarrow> raised_by_numpy e"
  unfolding occ_step_def raised_by_numpy_def
  by (auto split: sum.splits dest: np_index2_error assign_slice0_error)

lemma make_occ_error:
  assumes "make_occ ns nk nb a = Inl e"
  shows "raised_by_numpy e"
proof (cases a)
  case (Occ1D xs)
  then show ?thesis
    using assms by (auto simp: make_occ_def raised_by_numpy_def split: if_splits)
next
  case (Occ3D o3)
  show ?thesis
  proof (cases "np_max nb")
    case (Inl e')
    then have "e = PyValueError"
      using assms Occ3D by (auto simp: make_occ_def np_max_def split: list.splits)
    then show ?thesis by (simp add: raised_by_numpy_def)
  next
    case (Inr mx)
    show ?thesis
    proof (cases "mx < 0")
      case True
      then show ?thesis
        using assms Occ3D Inr by (simp add: make_occ_def raised_by_numpy_def)
    next
      case False
      then have "fold_err (\<lambda>ispin. fold_err (\<lambda>ikpt. occ_step nb o3 ispin ikpt) (py_range nk))
                  (py_range ns)
                  (replicate (nat ns) (replicate (nat nk) (replicate (nat mx) (NpInt 0)))) = Inl e"
        using assms Occ3D Inr by (simp add: make_occ_def)
      then obtain s oc where "fold_err (\<lambda>ikpt. occ_step nb o3 s ikpt) (py_range nk) oc = Inl e"
        by (blast dest: fold_err_Inl)
      then obtain k oc' where "occ_step nb o3 s k oc' = Inl e"
        by (blast dest: fold_err_Inl)
      then show ?thesis by (rule occ_step_error)
    qed
  qed
qed

lemma build_idx_skb_map_error: "build_idx_skb_map ns nk nb = Inl e \<Longrightarrow> e = PyIndexError"
proof -
  assume "build_idx_skb_map ns nk nb = Inl e"
  then obtain ch st where "channel_step nb ch st = Inl e"
    unfolding build_idx_skb_map_def by (blast dest: fold_err_Inl)
  then show ?thesis
    by (auto simp: channel_step_def split: prod.splits sum.splits dest: np_index2_error)
qed

lemma build_skb_idx_map_error: "build_skb_idx_map m no = Inl e \<Longrightarrow> e = PyKeyError"
proof -
  assume "build_skb_idx_map m no = Inl e"
  then obtain idx acc where
    "(case map_of m idx of None \<Rightarrow> Inl PyKeyError | Some t \<Rightarrow> Inr (AList.update t idx acc)) = Inl e"
    unfolding build_skb_idx_map_def by (blast dest: fold_err_Inl)
  then show ?thesis by (auto split: option.splits)
qed

text \<open>
  C5. The constructor raises the assertion error "K points are not supported yet" exactly
  when \<open>nkpt \<noteq> 1\<close>: with \<open>nkpt \<noteq> 1\<close> that error is the result, whatever the other arguments
  are, and no wavefunction (hence no index map and no store) is returned; with \<open>nkpt = 1\<close>
  the result is never that error.
\<close>

theorem kpoints_not_supported:
  "(nk \<noteq> 1 \<longrightarrow> Wavefunction_init smp wg dg ns nk a occ_in gam = Inl KPointsNotSupported)
   \<and> (nk = 1 \<longrightarrow> Wavefunction_init smp wg dg ns nk a occ_in gam \<noteq> Inl KPointsNotSupported)"
proof (intro conjI impI)
  assume "nk \<noteq> 1"
  then show "Wavefunction_init smp wg dg ns nk a occ_in gam = Inl KPointsNotSupported"
    by (simp add: Wavefunction_init_def)
next
  assume k: "nk = 1"
  show "Wavefunction_init smp wg dg ns nk a occ_in gam \<noteq> Inl KPointsNotSupported"
  proof
    assume e: "Wavefunction_init smp wg dg ns nk a occ_in gam = Inl KPointsNotSupported"
    show False
    proof (cases "make_nbnd ns nk a")
      case (Inl e1)
      with e k have "e1 = KPointsNotSupported" by (simp add: Wavefunction_init_def)
      with Inl show False by (auto dest: make_nbnd_error)
    next
      case nb: (Inr nb)
      show False
      proof (cases "make_occ ns nk nb occ_in")
        case (Inl e2)
        with e k nb have "e2 = KPointsNotSupported" by (simp add: Wavefunction_init_def)
        with Inl show False by (auto simp: raised_by_numpy_def dest: make_occ_error)
      next
        case oc: (Inr oc)
        show False
        proof (cases "build_idx_skb_map ns nk nb")
          case (Inl e3)
          with e k nb oc have "e3 = KPointsNotSupported" by (simp add: Wavefunction_init_def)
          with Inl show False by (auto dest: build_idx_skb_map_error)
        next
          case m: (Inr st)
          obtain m' idx where st: "st = (m', idx)" by (cases st)
          show False
          proof (cases "build_skb_idx_map m' (int (length m'))")
            case (Inl e4)
            with e k nb oc m st have "e4 = KPointsNotSupported"
              by (simp add: Wavefunction_init_def)
            with Inl show False by (auto dest: build_skb_idx_map_error)
          next
            case (Inr sm)
            with e k nb oc m st show False by (simp add: Wavefunction_init_def)
          qed
        qed
      qed
    qed
  qed
qed

theorem kpoints_not_supported_witness:
  "(2::int) \<noteq> 1
   \<and> Wavefunction_init ex_sample ex_grid ex_grid 2 2 (NbndInt 3) ex_occ True = Inl KPointsNotSupported
   \<and> Wavefunction_init ex_sample ex_grid ex_grid 2 1 (NbndArray [[2], [3]]) ex_occ True
       \<noteq> Inl KPointsNotSupported"
  using kpoints_not_supported [of 2 ex_sample ex_grid ex_grid 2 "NbndInt 3" ex_occ True]
    kpoints_not_supported [of 1 ex_sample ex_grid ex_grid 2 "NbndArray [[2], [3]]" ex_occ True]
  by simp

section \<open>Key resolution\<close>

lemma get_idx_tuple: "get_idx mgr (PTuple xs) = triple_idx (wfc mgr) xs"
  by (simp add: get_idx_def)

lemma get_idx_int: "get_idx mgr (PInt i) = Inr (Some i)"
  by (simp add: get_idx_def)

lemma triple_try_coercible:
  assumes "py_int c0 = Inr s" and "py_int c1 = Inr k" and "py_int c2 = Inr b"
  shows "triple_try w [c0, c1, c2] =
     (if \<not> (0 \<le> s \<and> s \<le> nspin w) then Inl KeyAssertion
      else if \<not> (0 \<le> k \<and> k \<le> nkpt w) then Inl KeyAssertion
      else case np_index2 (nbnd w) s k of Inl e \<Rightarrow> Inl e
           | Inr n \<Rightarrow> if \<not> (0 \<le> b \<and> b \<le> n) then Inl KeyAssertion else Inr (s, k, b))"
  using assms by (simp add: triple_try_def tuple_item_def)

lemma triple_idx_coercible:
  assumes "py_int c0 = Inr s" and "py_int c1 = Inr k" and "py_int c2 = Inr b"
  shows "triple_idx w [c0, c1, c2] =
     (if key_bounds_ok w s k b then Inr (skb2idx w s k b)
      else Inl (IndexOutOfRange (nspin w) (nkpt w) (nbnd w)))"
proof (cases "np_index2 (nbnd w) s k")
  case (Inl e)
  then have "e = PyIndexError" by (rule np_index2_error)
  with Inl show ?thesis
    by (simp add: triple_idx_def triple_try_coercible [OF assms] key_bounds_ok_def)
next
  case (Inr n)
  then show ?thesis
    by (simp add: triple_idx_def triple_try_coercible [OF assms] key_bounds_ok_def)
qed

lemma getitem_error: "get_idx mgr key = Inl e \<Longrightarrow> getitem mgr key = Inl e"
  by (simp add: getitem_def)

lemma setitem_error: "get_idx mgr key = Inl e \<Longrightarrow> setitem mgr key v = Inl e"
  by (simp add: setitem_def)

text \<open>
  C4. For a key that is a tuple of three integer-coercible components \<open>(s, k, b)\<close>, key
  resolution checks \<open>0 \<le> s \<le> nspin\<close>, \<open>0 \<le> k \<le> nkpt\<close> and \<open>0 \<le> b \<le> nbnd[s, k]\<close> (the upper
  bounds are inclusive) and succeeds if and only if they hold, reading \<open>nbnd[s, k]\<close> included
  (an \<^verbatim>\<open>IndexError\<close> of that read is reported like a failed bound); whenever one of the bounds fails,
  resolution, \<open>get\<close> and \<open>set\<close> all fail with the out-of-range error, which carries \<open>nspin\<close>,
  \<open>nkpt\<close> and the array \<open>nbnd\<close>. In particular the key \<open>(3, 0, 0)\<close> with \<open>nspin = 2\<close> and
  \<open>nkpt = 1\<close> fails with the out-of-range error reporting \<open>(2, 1, nbnd)\<close>.
\<close>

theorem triple_key_bounds:
  assumes "py_int c0 = Inr s" and "py_int c1 = Inr k" and "py_int c2 = Inr b"
  shows "get_idx mgr (PTuple [c0, c1, c2]) =
           (if key_bounds_ok (wfc mgr) s k b then Inr (skb2idx (wfc mgr) s k b)
            else Inl (IndexOutOfRange (nspin (wfc mgr)) (nkpt (wfc mgr)) (nbnd (wfc mgr))))
       \<and> (\<not> (0 \<le> s \<and> s \<le> nspin (wfc mgr)) \<or> \<not> (0 \<le> k \<and> k \<le> nkpt (wfc mgr))
            \<or> (\<exists>n. np_index2 (nbnd (wfc mgr)) s k = Inr n \<and> \<not> (0 \<le> b \<and> b \<le> n)) \<longrightarrow>
            getitem mgr (PTuple [c0, c1, c2])
              = Inl (IndexOutOfRange (nspin (wfc mgr)) (nkpt (wfc mgr)) (nbnd (wfc mgr)))
            \<and> setitem mgr (PTuple [c0, c1, c2]) v
              = Inl (IndexOutOfRange (nspin (wfc mgr)) (nkpt (wfc mgr)) (nbnd (wfc mgr))))
       \<and> (nspin (wfc mgr) = 2 \<and> nkpt (wfc mgr) = 1 \<longrightarrow>
            getitem mgr (PTuple [PInt 3, PInt 0, PInt 0])
              = Inl (IndexOutOfRange 2 1 (nbnd (wfc mgr))))"
proof (intro conjI impI)
  show r: "get_idx mgr (PTuple [c0, c1, c2]) =
           (if key_bounds_ok (wfc mgr) s k b then Inr (skb2idx (wfc mgr) s k b)
            else Inl (IndexOutOfRange (nspin (wfc mgr)) (nkpt (wfc mgr)) (nbnd (wfc mgr))))"
    by (simp add: get_idx_tuple triple_idx_coercible [OF assms])
  assume "\<not> (0 \<le> s \<and> s \<le> nspin (wfc mgr)) \<or> \<not> (0 \<le> k \<and> k \<le> nkpt (wfc mgr))
            \<or> (\<exists>n. np_index2 (nbnd (wfc mgr)) s k = Inr n \<and> \<not> (0 \<le> b \<and> b \<le> n))"
  then have "\<not> key_bounds_ok (wfc mgr) s k b"
    by (auto simp: key_bounds_ok_def)
  with r have e: "get_idx mgr (PTuple [c0, c1, c2])
      = Inl (IndexOutOfRange (nspin (wfc mgr)) (nkpt (wfc mgr)) (nbnd (wfc mgr)))"
    by simp
  show "getitem mgr (PTuple [c0, c1, c2])
      = Inl (IndexOutOfRange (nspin (wfc mgr)) (nkpt (wfc mgr)) (nbnd (wfc mgr)))"
    using e by (rule getitem_error)
  show "setitem mgr (PTuple [c0, c1, c2]) v
      = Inl (IndexOutOfRange (nspin (wfc mgr)) (nkpt (wfc mgr)) (nbnd (wfc mgr)))"
    using e by (rule setitem_error)
next
  assume c: "nspin (wfc mgr) = 2 \<and> nkpt (wfc mgr) = 1"
  have "get_idx mgr (PTuple [PInt 3, PInt 0, PInt 0])
      = Inl (IndexOutOfRange (nspin (wfc mgr)) (nkpt (wfc mgr)) (nbnd (wfc mgr)))"
    using c by (simp add: get_idx_tuple triple_idx_coercible [of _ 3 _ 0 _ 0] key_bounds_ok_def)
  then show "getitem mgr (PTuple [PInt 3, PInt 0, PInt 0]) = Inl (IndexOutOfRange 2 1 (nbnd (wfc mgr)))"
    using c by (simp add: getitem_error)
qed

theorem triple_key_bounds_witness:
  "py_int (PInt 1) = Inr 1 \<and> py_int (PStr (Some 0)) = Inr 0 \<and> py_int (PInt 4) = Inr 4
   \<and> np_index2 (nbnd (wfc (psi_g ex_wfc))) 1 0 = Inr 3 \<and> \<not> (0 \<le> (4::int) \<and> (4::int) \<le> 3)
   \<and> get_idx (psi_g ex_wfc) (PTuple [PInt 1, PStr (Some 0), PInt 4])
        = Inl (IndexOutOfRange 2 1 [[2], [3]])
   \<and> getitem (psi_g ex_wfc) (PTuple [PInt 1, PStr (Some 0), PInt 4])
        = Inl (IndexOutOfRange 2 1 [[2], [3]])
   \<and> setitem (psi_g ex_wfc) (PTuple [PInt 1, PStr (Some 0), PInt 4])
          \<lparr> arr_shape = [2, 2, 2], arr_data = [1, 1, 1, 1, 1, 1, 1, 1] \<rparr>
        = Inl (IndexOutOfRange 2 1 [[2], [3]])
   \<and> nspin (wfc (psi_g ex_wfc)) = 2 \<and> nkpt (wfc (psi_g ex_wfc)) = 1
   \<and> getitem (psi_g ex_wfc) (PTuple [PInt 3, PInt 0, PInt 0])
        = Inl (IndexOutOfRange 2 1 [[2], [3]])"
proof -
  have f: "wfc (psi_g ex_wfc) = ex_wfc" "nspin ex_wfc = 2" "nkpt ex_wfc = 1"
    "nbnd ex_wfc = [[2], [3]]"
    by (simp_all add: psi_g_def WfcManager_init_def ex_wfc_def)
  have i: "np_index2 [[2], [3::int]] 1 0 = Inr 3"
    by (simp add: np_index2_def np_index_def)
  have nb: "\<not> key_bounds_ok ex_wfc 1 0 4"
    by (simp add: key_bounds_ok_def f i)
  show ?thesis
    using triple_key_bounds [of "PInt 1" 1 "PStr (Some 0)" 0 "PInt 4" 4 "psi_g ex_wfc"
        "\<lparr> arr_shape = [2, 2, 2], arr_data = [1, 1, 1, 1, 1, 1, 1, 1] \<rparr>"]
    by (simp add: f i nb)
qed

section \<open>Keys that are not triples of integers\<close>

lemma triple_try_bad_string:
  assumes "j < 3" and "j < length xs" and "xs ! j = PStr None"
    and "\<forall>i<j. \<exists>n. py_int (xs ! i) = Inr n"
  shows "triple_try w xs = Inl PyValueError"
proof -
  consider "j = 0" | "j = 1" | "j = 2" using assms(1) by linarith
  then show ?thesis
  proof cases
    case 1
    then show ?thesis using assms(2,3) by (simp add: triple_try_def tuple_item_def)
  next
    case 2
    then obtain n where "py_int (xs ! 0) = Inr n" using assms(4) by auto
    moreover have "0 < length xs" using 2 assms(2) by auto
    ultimately show ?thesis using 2 assms(2,3) by (simp add: triple_try_def tuple_item_def)
  next
    case 3
    then have "\<exists>n. py_int (xs ! 0) = Inr n" "\<exists>m. py_int (xs ! 1) = Inr m"
      using assms(4) by simp_all
    then obtain n m where "py_int (xs ! 0) = Inr n" "py_int (xs ! 1) = Inr m" by blast
    moreover have "0 < length xs" "1 < length xs" using 3 assms(2) by auto
    ultimately show ?thesis using 3 assms(2,3) by (simp add: triple_try_def tuple_item_def)
  qed
qed

lemma triple_try_short:
  assumes "length xs < 3" and "\<forall>x \<in> set xs. \<exists>n. py_int x = Inr n"
  shows "triple_try w xs = Inl PyIndexError"
proof -
  consider "xs = []" | x where "xs = [x]" | x y where "xs = [x, y]"
    using assms(1) by (auto simp: less_Suc_eq eval_nat_numeral length_Suc_conv)
  then show ?thesis
  proof cases
    case 1
    then show ?thesis by (simp add: triple_try_def tuple_item_def)
  next
    case 2
    then obtain n where "py_int x = Inr n" using assms(2) by auto
    then show ?thesis using 2 by (simp add: triple_try_def tuple_item_def)
  next
    case 3
    then obtain n m where "py_int x = Inr n" "py_int y = Inr m" using assms(2) by auto
    then show ?thesis using 3 by (simp add: triple_try_def tuple_item_def)
  qed
qed

text \<open>
  C6, as the code has it. A tuple key in which a non-numeric string is met, reading the
  components 0, 1, 2 in order, before any missing or non-coercible component, makes key
  resolution, \<open>get\<close> and \<open>set\<close> fail with the invalid-key error of line 33, which differs from
  every out-of-range error. A tuple of fewer than three components, all of them
  integer-coercible, fails with the out-of-range error of line 35 instead: the handler of
  line 34 catches the \<^verbatim>\<open>IndexError\<close> of the missing component.
\<close>

theorem invalid_key_type:
  "(j < 3 \<and> j < length xs \<and> xs ! j = PStr None \<and> (\<forall>i<j. \<exists>n. py_int (xs ! i) = Inr n) \<longrightarrow>
      get_idx mgr (PTuple xs) = Inl InvalidKeyType
      \<and> getitem mgr (PTuple xs) = Inl InvalidKeyType
      \<and> setitem mgr (PTuple xs) v = Inl InvalidKeyType
      \<and> InvalidKeyType \<noteq> IndexOutOfRange a b c)
   \<and> (length xs < 3 \<and> (\<forall>x \<in> set xs. \<exists>n. py_int x = Inr n) \<longrightarrow>
      get_idx mgr (PTuple xs)
        = Inl (IndexOutOfRange (nspin (wfc mgr)) (nkpt (wfc mgr)) (nbnd (wfc mgr)))
      \<and> getitem mgr (PTuple xs)
        = Inl (IndexOutOfRange (nspin (wfc mgr)) (nkpt (wfc mgr)) (nbnd (wfc mgr)))
      \<and> setitem mgr (PTuple xs) v
        = Inl (IndexOutOfRange (nspin (wfc mgr)) (nkpt (wfc mgr)) (nbnd (wfc mgr))))"
proof (intro conjI impI)
  assume h: "j < 3 \<and> j < length xs \<and> xs ! j = PStr None \<and> (\<forall>i<j. \<exists>n. py_int (xs ! i) = Inr n)"
  then have "triple_try (wfc mgr) xs = Inl PyValueError"
    by (intro triple_try_bad_string [of j]) simp_all
  then show e: "get_idx mgr (PTuple xs) = Inl InvalidKeyType"
    by (simp add: get_idx_tuple triple_idx_def)
  show "getitem mgr (PTuple xs) = Inl InvalidKeyType" using e by (rule getitem_error)
  show "setitem mgr (PTuple xs) v = Inl InvalidKeyType" using e by (rule setitem_error)
  show "InvalidKeyType \<noteq> IndexOutOfRange a b c" by simp
next
  assume h: "length xs < 3 \<and> (\<forall>x \<in> set xs. \<exists>n. py_int x = Inr n)"
  then have "triple_try (wfc mgr) xs = Inl PyIndexError"
    by (intro triple_try_short) simp_all
  then show e: "get_idx mgr (PTuple xs)
      = Inl (IndexOutOfRange (nspin (wfc mgr)) (nkpt (wfc mgr)) (nbnd (wfc mgr)))"
    by (simp add: get_idx_tuple triple_idx_def)
  show "getitem mgr (PTuple xs)
      = Inl (IndexOutOfRange (nspin (wfc mgr)) (nkpt (wfc mgr)) (nbnd (wfc mgr)))"
    using e by (rule getitem_error)
  show "setitem mgr (PTuple xs) v
      = Inl (IndexOutOfRange (nspin (wfc mgr)) (nkpt (wfc mgr)) (nbnd (wfc mgr)))"
    using e by (rule setitem_error)
qed

theorem invalid_key_type_witness:
  "(2::nat) < 3 \<and> 2 < length [PInt 5, PStr (Some 0), PStr None]
   \<and> [PInt 5, PStr (Some 0), PStr None] ! 2 = PStr None
   \<and> py_int ([PInt 5, PStr (Some 0), PStr None] ! 0) = Inr 5
   \<and> py_int ([PInt 5, PStr (Some 0), PStr None] ! 1) = Inr 0
   \<and> getitem (psi_g ex_wfc) (PTuple [PInt 5, PStr (Some 0), PStr None]) = Inl InvalidKeyType
   \<and> setitem (psi_g ex_wfc) (PTuple [PInt 5, PStr (Some 0), PStr None])
        \<lparr> arr_shape = [2, 2, 2], arr_data = [1, 1, 1, 1, 1, 1, 1, 1] \<rparr> = Inl InvalidKeyType
   \<and> length [PInt 0, PStr (Some 0)] < 3
   \<and> py_int (PInt 0) = Inr 0 \<and> py_int (PStr (Some 0)) = Inr 0
   \<and> getitem (psi_g ex_wfc) (PTuple [PInt 0, PStr (Some 0)])
        = Inl (IndexOutOfRange 2 1 [[2], [3]])"
proof -
  have f: "wfc (psi_g ex_wfc) = ex_wfc" "nspin ex_wfc = 2" "nkpt ex_wfc = 1"
    "nbnd ex_wfc = [[2], [3]]"
    by (simp_all add: psi_g_def WfcManager_init_def ex_wfc_def)
  have c: "\<forall>i<2. \<exists>n. py_int ([PInt 5, PStr (Some 0), PStr None] ! i) = Inr n"
    by (simp add: less_Suc_eq eval_nat_numeral)
  have d: "\<forall>x \<in> set [PInt 0, PStr (Some 0)]. \<exists>n. py_int x = Inr n"
    by simp
  show ?thesis
    using invalid_key_type [of 2 "[PInt 5, PStr (Some 0), PStr None]" "psi_g ex_wfc"
        "\<lparr> arr_shape = [2, 2, 2], arr_data = [1, 1, 1, 1, 1, 1, 1, 1] \<rparr>"] c
      invalid_key_type [of _ "[PInt 0, PStr (Some 0)]" "psi_g ex_wfc"] d
    by (simp add: f)
qed

text \<open>
  C6 as stated fails: the two-element tuple \<open>(0, 0)\<close> is neither an integer nor a 3-tuple,
  yet \<open>get\<close> and \<open>set\<close> fail with the out-of-range error, not with the invalid-key error.
\<close>

theorem short_tuple_key_counterexample:
  "getitem (psi_g ex_wfc) (PTuple [PInt 0, PInt 0]) = Inl (IndexOutOfRange 2 1 [[2], [3]])
   \<and> getitem (psi_g ex_wfc) (PTuple [PInt 0, PInt 0]) \<noteq> Inl InvalidKeyType
   \<and> setitem (psi_g ex_wfc) (PTuple [PInt 0, PInt 0])
        \<lparr> arr_shape = [2, 2, 2], arr_data = [1, 1, 1, 1, 1, 1, 1, 1] \<rparr>
       = Inl (IndexOutOfRange 2 1 [[2], [3]])
   \<and> setitem (psi_g ex_wfc) (PTuple [PInt 0, PInt 0])
        \<lparr> arr_shape = [2, 2, 2], arr_data = [1, 1, 1, 1, 1, 1, 1, 1] \<rparr>
       \<noteq> Inl InvalidKeyType"
  by (simp add: getitem_def setitem_def get_idx_def triple_idx_def triple_try_def tuple_item_def
      psi_g_def WfcManager_init_def ex_wfc_def)

section \<open>Storing and reading fields\<close>

lemma ex_wfc_fields:
  "nspin ex_wfc = 2" "nkpt ex_wfc = 1" "nbnd ex_wfc = [[2], [3]]"
  "wgrid ex_wfc = ex_grid" "sample ex_wfc = ex_sample"
  "skb_idx_map ex_wfc = [((0, 0, 0), 0), ((0, 0, 1), 1), ((1, 0, 0), 2), ((1, 0, 1), 3),
                         ((1, 0, 2), 4)]"
  by (simp_all add: ex_wfc_def)

lemma ex_stores:
  "wfc (psi_r w) = w" "transform (psi_r w) = normalize w" "qty (psi_r w) = []"
  "wfc (psi_g w) = w" "transform (psi_g w) = Inr" "qty (psi_g w) = []"
  by (simp_all add: psi_r_def psi_g_def WfcManager_init_def)


lemma get_idx_setitem:
  "setitem mgr key v = Inr mgr' \<Longrightarrow> get_idx mgr' key' = get_idx mgr key'"
  by (cases key'; cases key)
     (auto simp: setitem_def get_idx_def split: sum.splits error.splits)

lemma setitem_getitem:
  assumes "get_idx mgr key = Inr idx" and "transform mgr v = Inr v'"
  shows "setitem mgr key v = Inr (mgr\<lparr>qty := AList.update idx v' (qty mgr)\<rparr>)"
    and "getitem (mgr\<lparr>qty := AList.update idx v' (qty mgr)\<rparr>) key = Inr v'"
proof -
  show s: "setitem mgr key v = Inr (mgr\<lparr>qty := AList.update idx v' (qty mgr)\<rparr>)"
    using assms by (simp add: setitem_def)
  have "get_idx (mgr\<lparr>qty := AList.update idx v' (qty mgr)\<rparr>) key = Inr idx"
    using get_idx_setitem [OF s] assms(1) by simp
  then show "getitem (mgr\<lparr>qty := AList.update idx v' (qty mgr)\<rparr>) key = Inr v'"
    by (simp add: getitem_def update_conv')
qed


lemma get_idx_not_shape: "get_idx mgr key \<noteq> Inl ShapeMismatch"
proof (cases key)
  case (PTuple xs)
  have t: "triple_try (wfc mgr) xs \<noteq> Inl ShapeMismatch"
    by (auto simp: triple_try_def tuple_item_def split: sum.splits if_splits
        dest: np_index2_error elim: py_int.elims)
  show ?thesis
    using t by (auto simp: PTuple get_idx_def triple_idx_def split: sum.splits error.splits)
next
  case (PStr x)
  then show ?thesis by (cases x) (simp_all add: get_idx_def)
qed (simp_all add: get_idx_def)



text \<open>
  C8. \<open>normalize\<close> raises its assertion error for every field whose shape is not
  \<open>(n1, n2, n3)\<close> of the wavefunction grid, and so does an insertion of such a field into a
  normalizing store once the key has resolved; a field of exactly that shape passes the
  assertion, \<open>normalize\<close> returns an array, and no insertion of it, whatever the key, ends in
  the shape assertion error.
\<close>

theorem normalize_shape_assertion:
  "(arr_shape psir \<noteq> [grid_n1 (wgrid w), grid_n2 (wgrid w), grid_n3 (wgrid w)] \<longrightarrow>
      normalize w psir = Inl ShapeMismatch
      \<and> (wfc mgr = w \<and> transform mgr = normalize w \<and> get_idx mgr key = Inr idx \<longrightarrow>
           setitem mgr key psir = Inl ShapeMismatch))
   \<and> (arr_shape psir = [grid_n1 (wgrid w), grid_n2 (wgrid w), grid_n3 (wgrid w)] \<longrightarrow>
      (\<exists>r. normalize w psir = Inr r)
      \<and> (wfc mgr = w \<and> transform mgr = normalize w \<longrightarrow>
           setitem mgr key psir \<noteq> Inl ShapeMismatch))"
proof (intro conjI impI)
  assume "arr_shape psir \<noteq> [grid_n1 (wgrid w), grid_n2 (wgrid w), grid_n3 (wgrid w)]"
  then show n: "normalize w psir = Inl ShapeMismatch"
    by (simp add: normalize_def)
  assume "wfc mgr = w \<and> transform mgr = normalize w \<and> get_idx mgr key = Inr idx"
  then show "setitem mgr key psir = Inl ShapeMismatch"
    using n by (simp add: setitem_def)
next
  assume s: "arr_shape psir = [grid_n1 (wgrid w), grid_n2 (wgrid w), grid_n3 (wgrid w)]"
  then show "\<exists>r. normalize w psir = Inr r"
    by (simp add: normalize_def Let_def)
  assume "wfc mgr = w \<and> transform mgr = normalize w"
  then show "setitem mgr key psir \<noteq> Inl ShapeMismatch"
    using s get_idx_not_shape [of mgr key]
    by (cases "get_idx mgr key") (auto simp: setitem_def normalize_def Let_def)
qed

theorem normalize_shape_assertion_witness:
  "arr_shape \<lparr> arr_shape = [2, 2], arr_data = [1, 1, 1, 1] \<rparr>
      \<noteq> [grid_n1 (wgrid ex_wfc), grid_n2 (wgrid ex_wfc), grid_n3 (wgrid ex_wfc)]
   \<and> normalize ex_wfc \<lparr> arr_shape = [2, 2], arr_data = [1, 1, 1, 1] \<rparr> = Inl ShapeMismatch
   \<and> wfc (psi_r ex_wfc) = ex_wfc \<and> transform (psi_r ex_wfc) = normalize ex_wfc
   \<and> get_idx (psi_r ex_wfc) (PInt 0) = Inr (Some 0)
   \<and> setitem (psi_r ex_wfc) (PInt 0) \<lparr> arr_shape = [2, 2], arr_data = [1, 1, 1, 1] \<rparr>
       = Inl ShapeMismatch
   \<and> arr_shape \<lparr> arr_shape = [2, 2, 2], arr_data = [1, 1, 1, 1, 1, 1, 1, 1] \<rparr>
      = [grid_n1 (wgrid ex_wfc), grid_n2 (wgrid ex_wfc), grid_n3 (wgrid ex_wfc)]
   \<and> (\<exists>r. normalize ex_wfc \<lparr> arr_shape = [2, 2, 2], arr_data = [1, 1, 1, 1, 1, 1, 1, 1] \<rparr> = Inr r)
   \<and> setitem (psi_r ex_wfc) (PInt 0)
        \<lparr> arr_shape = [2, 2, 2], arr_data = [1, 1, 1, 1, 1, 1, 1, 1] \<rparr> \<noteq> Inl ShapeMismatch"
proof -
  note f = ex_stores [of ex_wfc] ex_wfc_fields
  have g: "get_idx (psi_r ex_wfc) (PInt 0) = Inr (Some 0)"
    by (simp add: get_idx_def)
  show ?thesis
    using normalize_shape_assertion [of "\<lparr> arr_shape = [2, 2], arr_data = [1, 1, 1, 1] \<rparr>"
        ex_wfc "psi_r ex_wfc" "PInt 0" "Some 0"]
      normalize_shape_assertion [of "\<lparr> arr_shape = [2, 2, 2], arr_data = [1, 1, 1, 1, 1, 1, 1, 1] \<rparr>"
        ex_wfc "psi_r ex_wfc" "PInt 0"]
    by (simp add: f g ex_grid_def)
qed

section \<open>The boundary band index\<close>

lemma built_skb2idx_None:
  assumes "built w" and "\<not> valid_skb w (s, k, b)"
  shows "skb2idx w s k b = None"
proof (cases "skb2idx w s k b")
  case None
  then show ?thesis .
next
  case (Some i)
  let ?ts = "all_triples (nbnd w) (ndindex (nspin w) (nkpt w))"
  from Some have "0 \<le> i" "i < norb w" "?ts ! nat i = (s, k, b)"
    using built_skb2idx [OF assms(1)] by simp_all
  moreover have "norb w = int (length ?ts)" using assms(1) by (simp add: built_def)
  ultimately have "(s, k, b) \<in> set ?ts"
    by (metis nat_less_iff nth_mem)
  then have "valid_skb w (s, k, b)" using valid_skb_built [OF assms(1)] by simp
  with assms(2) show ?thesis by simp
qed

lemma getitem_other_key:
  assumes "setitem mgr key v = Inr mgr'" and "get_idx mgr key = Inr idx" and "idx \<noteq> Some i"
  shows "getitem mgr' (PInt i) = getitem mgr (PInt i)"
proof -
  from assms(1,2) obtain v' where "mgr' = mgr\<lparr>qty := AList.update idx v' (qty mgr)\<rparr>"
    by (auto simp: setitem_def split: sum.splits)
  then show ?thesis
    using assms(3) by (simp add: getitem_def get_idx_int update_conv')
qed

text \<open>
  C9. In a constructed wavefunction, for a spin \<open>0 \<le> s < nspin\<close> whose band count
  \<open>n = nbnd[s, 0]\<close> is not negative, the triple key \<open>(s, 0, n)\<close> passes the bound checks,
  \<open>skb2idx\<close> returns \<^verbatim>\<open>None\<close> for it, and key resolution returns \<^verbatim>\<open>None\<close> without an error.
  If the transform accepts the value, \<open>set\<close> with that key succeeds and stores the
  transformed value under the dict key \<^verbatim>\<open>None\<close>; a following \<open>get\<close> with the same key returns
  it, \<open>indices()\<close> contains \<^verbatim>\<open>None\<close>, and every integer key resolves to itself, never to
  \<^verbatim>\<open>None\<close>, and reads what it read before the insertion.
\<close>

theorem boundary_band_key:
  assumes "Wavefunction_init smp wg dg ns nk a occ_in gam = Inr w"
    and "wfc mgr = w"
    and "0 \<le> s" and "s < nspin w"
    and "np_index2 (nbnd w) s 0 = Inr n" and "0 \<le> n"
    and "transform mgr v = Inr v'"
  shows "key_bounds_ok w s 0 n
       \<and> skb2idx w s 0 n = None
       \<and> get_idx mgr (PTuple [PInt s, PInt 0, PInt n]) = Inr None
       \<and> (\<exists>mgr'. setitem mgr (PTuple [PInt s, PInt 0, PInt n]) v = Inr mgr'
            \<and> map_of (qty mgr') None = Some v'
            \<and> getitem mgr' (PTuple [PInt s, PInt 0, PInt n]) = Inr v'
            \<and> None \<in> set (indices mgr')
            \<and> (\<forall>i. get_idx mgr' (PInt i) = Inr (Some i)
                    \<and> getitem mgr' (PInt i) = getitem mgr (PInt i)))"
proof -
  note b = init_built [OF assms(1)]
  have k1: "nkpt w = 1" using init_fields(1,3) [OF assms(1)] by simp
  have ok: "key_bounds_ok w s 0 n"
    using assms(3,4,5,6) k1 by (simp add: key_bounds_ok_def)
  have "\<not> valid_skb w (s, 0, n)"
    using assms(5) by (simp add: valid_skb_def)
  then have none: "skb2idx w s 0 n = None"
    using b by (rule built_skb2idx_None [rotated])
  have g: "get_idx mgr (PTuple [PInt s, PInt 0, PInt n]) = Inr None"
    using ok none assms(2)
    by (simp add: get_idx_tuple triple_idx_coercible [of _ s _ 0 _ n])
  let ?mgr' = "mgr\<lparr>qty := AList.update None v' (qty mgr)\<rparr>"
  have st: "setitem mgr (PTuple [PInt s, PInt 0, PInt n]) v = Inr ?mgr'"
    and gt: "getitem ?mgr' (PTuple [PInt s, PInt 0, PInt n]) = Inr v'"
    using setitem_getitem [OF g assms(7)] by simp_all
  have m: "map_of (qty ?mgr') None = Some v'"
    by (simp add: update_conv')
  have ind: "None \<in> set (indices ?mgr')"
    by (simp add: indices_def dom_update)
  have ints: "\<forall>i. get_idx ?mgr' (PInt i) = Inr (Some i)
      \<and> getitem ?mgr' (PInt i) = getitem mgr (PInt i)"
    using getitem_other_key [OF st g] by (simp add: get_idx_int)
  from ok none g st gt m ind ints show ?thesis by blast
qed

theorem boundary_band_key_witness:
  "Wavefunction_init ex_sample ex_grid ex_grid 2 1 (NbndArray [[2], [3]]) ex_occ True = Inr ex_wfc
   \<and> wfc (psi_g ex_wfc) = ex_wfc \<and> (0::int) \<le> 1 \<and> 1 < nspin ex_wfc
   \<and> np_index2 (nbnd ex_wfc) 1 0 = Inr 3 \<and> (0::int) \<le> 3
   \<and> transform (psi_g ex_wfc) \<lparr> arr_shape = [2, 2, 2], arr_data = [1, 1, 1, 1, 1, 1, 1, 1] \<rparr>
        = Inr \<lparr> arr_shape = [2, 2, 2], arr_data = [1, 1, 1, 1, 1, 1, 1, 1] \<rparr>
   \<and> skb2idx ex_wfc 1 0 3 = None
   \<and> get_idx (psi_g ex_wfc) (PTuple [PInt 1, PInt 0, PInt 3]) = Inr None
   \<and> (\<exists>mgr'. setitem (psi_g ex_wfc) (PTuple [PInt 1, PInt 0, PInt 3])
                 \<lparr> arr_shape = [2, 2, 2], arr_data = [1, 1, 1, 1, 1, 1, 1, 1] \<rparr> = Inr mgr'
         \<and> getitem mgr' (PTuple [PInt 1, PInt 0, PInt 3])
             = Inr \<lparr> arr_shape = [2, 2, 2], arr_data = [1, 1, 1, 1, 1, 1, 1, 1] \<rparr>
         \<and> indices mgr' = [None]
         \<and> getitem mgr' (PInt 4) = Inl PyKeyError)"
proof -
  let ?v = "\<lparr> arr_shape = [2, 2, 2], arr_data = [1, 1, 1, 1, 1, 1, 1, 1] \<rparr>"
  have i: "np_index2 (nbnd ex_wfc) 1 0 = Inr 3"
    by (simp add: ex_wfc_fields np_index2_def np_index_def)
  have t: "transform (psi_g ex_wfc) ?v = Inr ?v"
    by (simp add: ex_stores)
  have s: "(1::int) < nspin ex_wfc" by (simp add: ex_wfc_fields)
  note r = boundary_band_key [OF ex_wfc_init ex_stores(4) _ s i _ t]
  have g: "getitem (psi_g ex_wfc) (PInt 4) = (Inl PyKeyError :: error + ndarray)"
    by (simp add: getitem_def get_idx_int ex_stores)
  from r obtain mgr' where m: "setitem (psi_g ex_wfc) (PTuple [PInt 1, PInt 0, PInt 3]) ?v = Inr mgr'"
    "getitem mgr' (PTuple [PInt 1, PInt 0, PInt 3]) = Inr ?v"
    "getitem mgr' (PInt 4) = getitem (psi_g ex_wfc) (PInt 4)"
    by force
  from r have g0: "get_idx (psi_g ex_wfc) (PTuple [PInt 1, PInt 0, PInt 3]) = Inr None"
    by simp
  have "indices mgr' = [None]"
    using m(1) g0 by (auto simp: setitem_def indices_def ex_stores)
  with r m g ex_wfc_init i t s show ?thesis
    by (simp add: ex_stores)
qed

section \<open>The occupation numbers\<close>




lemma fold_err_single: "fold_err f [x] s = f x s"
  by (cases "f x s") simp_all




















section \<open>The dtype of the stored occupation numbers\<close>







end
